theory Spec2Isabelle
  imports Main "HOL-Library.Multiset"
begin

section \<open>Data model\<close>

text \<open>
  Go strings are byte sequences; \<^typ>\<open>string\<close> is a list of 8-bit characters.
  A Go \<^verbatim>\<open>map[string]T\<close> is a partial function \<open>string \<rightharpoonup> T\<close>. A Go map has no
  iteration order: every \<^verbatim>\<open>range\<close> over a map visits each key once, in an order the
  runtime chooses anew each time. A function that ranges over a map therefore takes the
  order of that one iteration as an explicit argument, a list of keys.
\<close>

subsection \<open>The decoded plan: \<^verbatim>\<open>interface{}\<close> values and \<^verbatim>\<open>PlannedResource\<close>\<close>

text \<open>
  What \<^verbatim>\<open>json.Unmarshal\<close> stores in an \<^verbatim>\<open>interface{}\<close>: nil, a bool, a float64, a
  string, a slice or a map with string keys. The code never looks into a float64, so its
  type is a parameter.
\<close>

datatype 'f json =
    JNull
  | JBool bool
  | JNumber 'f
  | JString string
  | JArray "'f json list"
  | JObject "string \<rightharpoonup> 'f json"

record 'f PlannedResource =
  Address :: string
  Type :: string
  Name :: string
  Values :: "string \<rightharpoonup> 'f json"
  ModulePath :: "string list"

subsection \<open>\<^verbatim>\<open>hcl.Pos\<close>, \<^verbatim>\<open>hcl.Range\<close>, \<^verbatim>\<open>parser.Resource\<close>, \<^verbatim>\<open>parser.ParseResult\<close>\<close>

record Pos =
  Line :: int
  Column :: int
  Byte :: int

record Range =
  Filename :: string
  Start :: Pos
  End :: Pos

record Resource =
  Type :: string
  Name :: string
  Tags :: "string \<rightharpoonup> string"
  Location :: Range
  File :: string

text \<open>An \<^verbatim>\<open>error\<close> is represented by its message.\<close>

record ParseResult =
  Resources :: "Resource list"
  Errors :: "string list"

subsection \<open>The syntax tree of the HCL library\<close>

text \<open>
  The part of \<^verbatim>\<open>hclsyntax\<close> the extractor inspects. A \<^verbatim>\<open>cty.Value\<close> is either of type
  \<^verbatim>\<open>cty.String\<close>, with the string \<^verbatim>\<open>AsString\<close> returns, or of another type. Of a
  \<^verbatim>\<open>TemplateExpr\<close> the code asks \<^verbatim>\<open>IsStringLiteral()\<close> and \<^verbatim>\<open>Value(nil)\<close>; the
  expression is represented by these two answers. A traversal step is a
  \<^verbatim>\<open>TraverseRoot\<close> with its name or a step of another kind.
\<close>

datatype cty_Value = cty_String string | cty_Other

datatype Traverser = TraverseRoot string | TraverseOther

datatype Expression =
    LiteralValueExpr cty_Value
  | TemplateExpr bool cty_Value
  | ScopeTraversalExpr "Traverser list"
  | ObjectConsKeyExpr Expression
  | ObjectConsExpr "(Expression \<times> Expression) list"
  | OtherExpr

text \<open>
  A body has its attributes (a map from the attribute's name to its expression) and its
  blocks; a block has its type, labels, body and defining range.
\<close>

datatype Body = Body "string \<rightharpoonup> Expression" "Block list"
  and Block = Block string "string list" Body Range

text \<open>
  What \<^verbatim>\<open>ParseHCLFile\<close> returns for a file name: diagnostics with errors (represented
  by the text of \<^verbatim>\<open>diags.Error()\<close>), or a file whose body is an \<^verbatim>\<open>hclsyntax.Body\<close>
  or a body of another type.
\<close>

datatype FileBody = SyntaxBody Body | OtherBody

datatype ParsedFile = Diagnostics string | Parsed FileBody

text \<open>
  One call that \<^verbatim>\<open>filepath.Walk\<close> makes to its callback: the path, whether the file
  info says directory, and the error passed in (nil or an error).
\<close>

record WalkEntry =
  filePath :: string
  IsDir :: bool
  err :: "string option"

subsection \<open>\<^verbatim>\<open>config.Config\<close>\<close>

record Condition =
  Tag :: string
  Value :: string

record TagConstraint =
  Tag :: string
  AllowedValues :: "string list"

text \<open>
  \<^verbatim>\<open>regex *regexp.Regexp\<close> is either nil or a compiled expression of the regexp
  library; the compiled expression is represented by what \<^verbatim>\<open>MatchString\<close> computes.
\<close>

record TagPattern =
  Pattern :: string
  Message :: string
  regex :: "(string \<Rightarrow> bool) option"

record Rule =
  Name :: string
  Description :: string
  RequiredTags :: "string list"
  ForbiddenTags :: "string list"
  Condition :: "Condition option"
  ResourceTypes :: "string list"
  TagConstraints :: "TagConstraint list"
  TagPatterns :: "TagPattern list"

record Global =
  AlwaysRequiredTags :: "string list"
  IgnoreResourceTypes :: "string list"

record Config =
  Rules :: "Rule list"
  Global :: Global

subsection \<open>\<^verbatim>\<open>validator.Violation\<close>\<close>

record Violation =
  Rule :: string
  Description :: string
  Resource :: Resource
  Message :: string

section \<open>The validator\<close>

text \<open>\<^verbatim>\<open>strings.Join(elems, sep)\<close>.\<close>

fun Join :: "string list \<Rightarrow> string \<Rightarrow> string" where
  "Join [] sep = []"
| "Join [e] sep = e"
| "Join (e # es) sep = e @ sep @ Join es sep"

text \<open>\<^verbatim>\<open>(tp *TagPattern) Validate(tagName)\<close>.\<close>

definition Validate_pattern :: "TagPattern \<Rightarrow> string \<Rightarrow> bool" where
  "Validate_pattern tp tagName =
     (case regex tp of None \<Rightarrow> True | Some MatchString \<Rightarrow> MatchString tagName)"

text \<open>The three membership loops, each returning at the first equal element.\<close>

fun shouldIgnoreResource_loop :: "string \<Rightarrow> string list \<Rightarrow> bool" where
  "shouldIgnoreResource_loop resourceType [] = False"
| "shouldIgnoreResource_loop resourceType (ignored # rest) =
     (if resourceType = ignored then True else shouldIgnoreResource_loop resourceType rest)"

definition shouldIgnoreResource :: "Config \<Rightarrow> string \<Rightarrow> bool" where
  "shouldIgnoreResource cfg resourceType =
     shouldIgnoreResource_loop resourceType (IgnoreResourceTypes (Global cfg))"

fun isResourceTypeInList :: "string \<Rightarrow> string list \<Rightarrow> bool" where
  "isResourceTypeInList resourceType [] = False"
| "isResourceTypeInList resourceType (t # rest) =
     (if t = resourceType then True else isResourceTypeInList resourceType rest)"

fun isValueAllowed :: "string \<Rightarrow> string list \<Rightarrow> bool" where
  "isValueAllowed v [] = False"
| "isValueAllowed v (allowed # rest) =
     (if v = allowed then True else isValueAllowed v rest)"

definition checkCondition :: "Resource \<Rightarrow> Condition \<Rightarrow> bool" where
  "checkCondition resource condition =
     (case Tags resource (Condition.Tag condition) of
        None \<Rightarrow> False
      | Some v \<Rightarrow> v = Condition.Value condition)"

text \<open>
  \<^verbatim>\<open>checkGlobalRequiredTags\<close>: one loop over \<^verbatim>\<open>Global.AlwaysRequiredTags\<close>, appending
  to \<^verbatim>\<open>violations\<close>.
\<close>

definition checkGlobalRequiredTags :: "Config \<Rightarrow> Resource \<Rightarrow> Violation list" where
  "checkGlobalRequiredTags cfg resource =
     fold (\<lambda>requiredTag violations.
             if Tags resource requiredTag = None
             then violations @
               [\<lparr>Rule = ''global-required-tags'',
                 Description = ''Global required tags'',
                 Resource = resource,
                 Message = ''Missing required tag: '' @ requiredTag\<rparr>]
             else violations)
          (AlwaysRequiredTags (Global cfg)) []"

text \<open>
  \<^verbatim>\<open>checkRule\<close>, its four loops named. Each takes the \<^verbatim>\<open>violations\<close> slice built so
  far and returns it extended. The last one ranges over the map \<^verbatim>\<open>resource.Tags\<close>:
  \<open>tagNames\<close> is the order in which that iteration visits the keys.
\<close>

definition requiredTags_loop :: "Resource \<Rightarrow> Rule \<Rightarrow> Violation list \<Rightarrow> Violation list" where
  "requiredTags_loop resource rule =
     fold (\<lambda>requiredTag violations.
             if Tags resource requiredTag = None
             then violations @
               [\<lparr>Rule = Rule.Name rule,
                 Description = Rule.Description rule,
                 Resource = resource,
                 Message = ''Missing required tag: '' @ requiredTag\<rparr>]
             else violations)
          (RequiredTags rule)"

definition forbiddenTags_loop :: "Resource \<Rightarrow> Rule \<Rightarrow> Violation list \<Rightarrow> Violation list" where
  "forbiddenTags_loop resource rule =
     fold (\<lambda>forbiddenTag violations.
             if Tags resource forbiddenTag \<noteq> None
             then violations @
               [\<lparr>Rule = Rule.Name rule,
                 Description = Rule.Description rule,
                 Resource = resource,
                 Message = ''Forbidden tag found: '' @ forbiddenTag\<rparr>]
             else violations)
          (ForbiddenTags rule)"

definition tagConstraints_loop :: "Resource \<Rightarrow> Rule \<Rightarrow> Violation list \<Rightarrow> Violation list" where
  "tagConstraints_loop resource rule =
     fold (\<lambda>constraint violations.
             case Tags resource (TagConstraint.Tag constraint) of
               None \<Rightarrow> violations
             | Some v \<Rightarrow>
                 if \<not> isValueAllowed v (AllowedValues constraint)
                 then violations @
                   [\<lparr>Rule = Rule.Name rule,
                     Description = Rule.Description rule,
                     Resource = resource,
                     Message = ''Invalid value for tag '' @ TagConstraint.Tag constraint
                       @ '': '' @ [CHR 0x27] @ v @ [CHR 0x27] @ ''. Allowed values: ''
                       @ Join (AllowedValues constraint) '', ''\<rparr>]
                 else violations)
          (TagConstraints rule)"

definition tagPatterns_loop ::
  "string list \<Rightarrow> Resource \<Rightarrow> Rule \<Rightarrow> Violation list \<Rightarrow> Violation list" where
  "tagPatterns_loop tagNames resource rule =
     fold (\<lambda>tagName.
             fold (\<lambda>pattern violations.
                     if \<not> Validate_pattern pattern tagName
                     then violations @
                       [\<lparr>Rule = Rule.Name rule,
                         Description = Rule.Description rule,
                         Resource = resource,
                         Message = ''Tag name '' @ [CHR 0x27] @ tagName @ [CHR 0x27]
                           @ '' does not match pattern: '' @ TagPattern.Message pattern\<rparr>]
                     else violations)
                  (TagPatterns rule))
          tagNames"

definition checkRule :: "string list \<Rightarrow> Resource \<Rightarrow> Rule \<Rightarrow> Violation list" where
  "checkRule tagNames resource rule =
     (let violations = [] in
      if length (ResourceTypes rule) > 0
         \<and> \<not> isResourceTypeInList (Type resource) (ResourceTypes rule)
      then violations
      else if (case Rule.Condition rule of
                 None \<Rightarrow> False
               | Some condition \<Rightarrow> \<not> checkCondition resource condition)
      then violations
      else tagPatterns_loop tagNames resource rule
             (tagConstraints_loop resource rule
               (forbiddenTags_loop resource rule
                 (requiredTags_loop resource rule violations))))"

text \<open>
  \<^verbatim>\<open>Validate\<close>. The \<open>i\<close>-th resource's tags are ranged over once for each rule;
  \<open>order i j\<close> is the key order of the iteration made for the \<open>j\<close>-th rule.
\<close>

definition Validate :: "Config \<Rightarrow> (nat \<Rightarrow> nat \<Rightarrow> string list) \<Rightarrow> Resource list \<Rightarrow> Violation list" where
  "Validate cfg order resources =
     fold (\<lambda>(i, resource) violations.
             if shouldIgnoreResource cfg (Type resource) then violations
             else fold (\<lambda>(j, rule) violations.
                          violations @ checkRule (order i j) resource rule)
                       (enumerate 0 (Rules cfg))
                       (violations @ checkGlobalRequiredTags cfg resource))
          (enumerate 0 resources) []"

text \<open>
  What the runtime guarantees of one iteration over a map: every key once. And of a whole
  run of \<^verbatim>\<open>Validate\<close>: that, for every iteration it makes.
\<close>

definition range_order :: "string list \<Rightarrow> (string \<rightharpoonup> 'v) \<Rightarrow> bool" where
  "range_order ks m = (distinct ks \<and> set ks = dom m)"

definition range_orders :: "(nat \<Rightarrow> nat \<Rightarrow> string list) \<Rightarrow> Config \<Rightarrow> Resource list \<Rightarrow> bool" where
  "range_orders order cfg resources =
     list_all (\<lambda>i. list_all (\<lambda>j. range_order (order i j) (Tags (resources ! i)))
                             [0..<length (Rules cfg)])
              [0..<length resources]"

subsection \<open>The specification's gate, and the inputs of the examples\<close>

text \<open>
  The applicability gate of a rule, as the specification words it: the rule names no
  resource types or names the resource's type, and it has no condition or the resource
  carries the condition's tag with exactly the condition's value.
\<close>

definition rule_applies :: "Resource \<Rightarrow> Rule \<Rightarrow> bool" where
  "rule_applies resource rule \<longleftrightarrow>
     (ResourceTypes rule = [] \<or> Type resource \<in> set (ResourceTypes rule)) \<and>
     (case Rule.Condition rule of
        None \<Rightarrow> True
      | Some c \<Rightarrow> Tags resource (Condition.Tag c) = Some (Condition.Value c))"

text \<open>Go zero values, for the examples that leave fields out.\<close>

definition zero_Pos :: Pos where
  "zero_Pos = \<lparr>Line = 0, Column = 0, Byte = 0\<rparr>"

definition zero_Resource :: Resource where
  "zero_Resource = \<lparr>Type = [], Name = [], Tags = Map.empty,
     Location = \<lparr>Filename = [], Start = zero_Pos, End = zero_Pos\<rparr>, File = []\<rparr>"

definition zero_Rule :: Rule where
  "zero_Rule = \<lparr>Name = [], Description = [], RequiredTags = [], ForbiddenTags = [],
     Condition = None, ResourceTypes = [], TagConstraints = [], TagPatterns = []\<rparr>"

text \<open>The combined scenario of the specification's testable properties.\<close>

definition combined_resource :: Resource where
  "combined_resource = zero_Resource\<lparr>Tags := [''Test'' \<mapsto> ''true'']\<rparr>"

definition combined_config :: Config where
  "combined_config =
     \<lparr>Rules = [zero_Rule\<lparr>RequiredTags := [''Name'']\<rparr>, zero_Rule\<lparr>ForbiddenTags := [''Test'']\<rparr>],
      Global = \<lparr>AlwaysRequiredTags = [''Owner''], IgnoreResourceTypes = []\<rparr>\<rparr>"

text \<open>A rule with three value constraints, for the examples of value exactness.\<close>

definition constraint_rule :: Rule where
  "constraint_rule = zero_Rule\<lparr>TagConstraints :=
     [\<lparr>Tag = ''Environment'', AllowedValues = [''dev'', ''staging'', ''prod'']\<rparr>,
      \<lparr>Tag = ''Team'', AllowedValues = []\<rparr>,
      \<lparr>Tag = ''CostCenter'', AllowedValues = [''a'']\<rparr>]\<rparr>"

text \<open>
  The pattern example of the specification: a resource with the tags Name and
  environment, and a rule whose one pattern asks for a leading uppercase letter. The
  compiled expression is given by the strings it matches.
\<close>

definition leading_uppercase :: TagPattern where
  "leading_uppercase =
     \<lparr>Pattern = ''^[A-Z]'', Message = ''Tag names must start with uppercase'',
      regex = Some (\<lambda>s. case s of [] \<Rightarrow> False
                          | c # _ \<Rightarrow> c \<in> set ''ABCDEFGHIJKLMNOPQRSTUVWXYZ'')\<rparr>"

definition pattern_resource :: Resource where
  "pattern_resource = zero_Resource\<lparr>Tags := [''Name'' \<mapsto> ''x'', ''environment'' \<mapsto> ''prod'']\<rparr>"

definition pattern_rule :: Rule where
  "pattern_rule = zero_Rule\<lparr>TagPatterns := [leading_uppercase]\<rparr>"

text \<open>
  A resource with two tags that both fail the leading-uppercase pattern, and the two
  orders in which a run may iterate over its tags.
\<close>

definition shuffle_resource :: Resource where
  "shuffle_resource = zero_Resource\<lparr>Tags := [''env'' \<mapsto> ''prod'', ''team'' \<mapsto> ''x'']\<rparr>"

definition shuffle_config :: Config where
  "shuffle_config = \<lparr>Rules = [pattern_rule],
     Global = \<lparr>AlwaysRequiredTags = [], IgnoreResourceTypes = []\<rparr>\<rparr>"

definition order_env_team :: "nat \<Rightarrow> nat \<Rightarrow> string list" where
  "order_env_team i j = [''env'', ''team'']"

definition order_team_env :: "nat \<Rightarrow> nat \<Rightarrow> string list" where
  "order_team_env i j = [''team'', ''env'']"

section \<open>The plan extractor\<close>

text \<open>\<^verbatim>\<open>strings.HasPrefix\<close> and \<^verbatim>\<open>strings.HasSuffix\<close>.\<close>

definition HasPrefix :: "string \<Rightarrow> string \<Rightarrow> bool" where
  "HasPrefix s prefix \<longleftrightarrow> length s \<ge> length prefix \<and> take (length prefix) s = prefix"

definition HasSuffix :: "string \<Rightarrow> string \<Rightarrow> bool" where
  "HasSuffix s suffix \<longleftrightarrow>
     length s \<ge> length suffix \<and> drop (length s - length suffix) s = suffix"

text \<open>
  \<^verbatim>\<open>strings.Split(s, sep)\<close> for a separator of one byte: the segments between the
  separators, of which there is always at least one. \<open>seg\<close> is the segment being read.
\<close>

fun Split_scan :: "char \<Rightarrow> string \<Rightarrow> string \<Rightarrow> string list" where
  "Split_scan sep seg [] = [seg]"
| "Split_scan sep seg (c # cs) =
     (if c = sep then seg # Split_scan sep [] cs else Split_scan sep (seg @ [c]) cs)"

definition Split :: "string \<Rightarrow> char \<Rightarrow> string list" where
  "Split s sep = Split_scan sep [] s"

fun isResourceType_loop :: "string \<Rightarrow> string list \<Rightarrow> bool" where
  "isResourceType_loop s [] = False"
| "isResourceType_loop s (prefix # rest) =
     (if HasPrefix s prefix then True else isResourceType_loop s rest)"

definition isResourceType :: "string \<Rightarrow> bool" where
  "isResourceType s =
     isResourceType_loop s [''aws_'', ''google_'', ''azurerm_'', ''alicloud_'', ''oci_'']"

text \<open>
  \<^verbatim>\<open>extractTagsFromValues\<close>. Each of its two loops ranges over a decoded JSON object
  \<open>t\<close> and copies the entries whose value is a string; \<open>ks\<close> is the order of that
  iteration.
\<close>

definition copy_strings ::
  "string list \<Rightarrow> (string \<rightharpoonup> 'f json) \<Rightarrow> (string \<rightharpoonup> string) \<Rightarrow> (string \<rightharpoonup> string)" where
  "copy_strings ks t =
     fold (\<lambda>k tags. case t k of Some (JString str) \<Rightarrow> tags(k \<mapsto> str) | _ \<Rightarrow> tags) ks"

definition extractTagsFromValues ::
  "string list \<Rightarrow> string list \<Rightarrow> (string \<rightharpoonup> 'f json) \<Rightarrow> (string \<rightharpoonup> string)" where
  "extractTagsFromValues ks ks_all values =
     (let tags = Map.empty;
          tags = (case values ''tags'' of
                    Some (JObject t) \<Rightarrow> copy_strings ks t tags
                  | _ \<Rightarrow> tags);
          tags = (case values ''tags_all'' of
                    Some (JObject t) \<Rightarrow> copy_strings ks_all t tags
                  | _ \<Rightarrow> tags)
      in tags)"

text \<open>
  The loop of \<^verbatim>\<open>convertPlannedResource\<close> that looks for the resource type. It visits
  every segment that has a successor (\<^verbatim>\<open>i < len(parts)-1\<close>) and stops at the first one
  that \<^verbatim>\<open>isResourceType\<close> accepts; it returns \<^verbatim>\<open>resourceType\<close> and \<^verbatim>\<open>resourceName\<close>,
  both empty when it finds none.
\<close>

fun find_resource_type :: "string list \<Rightarrow> string \<times> string" where
  "find_resource_type (p # q # rest) =
     (if isResourceType p then (p, q) else find_resource_type (q # rest))"
| "find_resource_type _ = ([], [])"

text \<open>
  \<^verbatim>\<open>convertPlannedResource\<close>; a nil result is \<open>None\<close>. \<open>ks\<close> and \<open>ks_all\<close> are
  the iteration orders of \<^verbatim>\<open>extractTagsFromValues\<close>.
\<close>

definition convertPlannedResource ::
  "string list \<Rightarrow> string list \<Rightarrow> 'f PlannedResource \<Rightarrow> string \<Rightarrow> Resource option" where
  "convertPlannedResource ks ks_all planned filename =
     (let parts = Split (Address planned) CHR ''.'' in
      if length parts < 2 then None
      else
        let (resourceType, resourceName) = find_resource_type parts;
            derived =
              (if resourceType = [] \<or> resourceName = []
               then if length parts \<ge> 2
                    then Some (parts ! (length parts - 2), parts ! (length parts - 1))
                    else None
               else Some (resourceType, resourceName))
        in case derived of
             None \<Rightarrow> None
           | Some (resourceType, resourceName) \<Rightarrow>
               Some \<lparr>Type = resourceType,
                     Name = resourceName,
                     Tags = extractTagsFromValues ks ks_all (Values planned),
                     Location = \<lparr>Filename = filename,
                                  Start = \<lparr>Line = 1, Column = 1, Byte = 0\<rparr>,
                                  End = \<lparr>Line = 1, Column = 1, Byte = 0\<rparr>\<rparr>,
                     File = filename\<rparr>)"

subsection \<open>The specification's merge and derivation, and the inputs of the examples\<close>

text \<open>
  The string-valued entries of a field of the value map, in the specification's words:
  those of the object when the field is there and is an object, none otherwise.
\<close>

definition string_entries :: "'f json option \<Rightarrow> (string \<rightharpoonup> string)" where
  "string_entries field =
     (case field of
        Some (JObject t) \<Rightarrow> (\<lambda>k. case t k of Some (JString str) \<Rightarrow> Some str | _ \<Rightarrow> None)
      | _ \<Rightarrow> Map.empty)"

text \<open>An iteration order for a field: that of its object, when there is one.\<close>

definition field_order :: "string list \<Rightarrow> 'f json option \<Rightarrow> bool" where
  "field_order ks field =
     (case field of Some (JObject t) \<Rightarrow> range_order ks t | _ \<Rightarrow> True)"

text \<open>The tag-merge example: a value map with \<^verbatim>\<open>tags\<close> and \<^verbatim>\<open>tags_all\<close>.\<close>

definition merge_values :: "string \<rightharpoonup> 'f json" where
  "merge_values =
     [''tags'' \<mapsto> JObject [''Name'' \<mapsto> JString ''a''],
      ''tags_all'' \<mapsto> JObject [''Name'' \<mapsto> JString ''a'', ''Environment'' \<mapsto> JString ''dev'']]"

text \<open>
  The identity derivation in the specification's words: the first segment that matches
  the provider prefixes, with the segment that follows it (so the last segment, which
  has none, is not a candidate); the final two segments when no segment matches; nothing
  for fewer than two segments.
\<close>

fun first_provider_segment :: "string list \<Rightarrow> (string \<times> string) option" where
  "first_provider_segment (p # q # rest) =
     (if isResourceType p then Some (p, q) else first_provider_segment (q # rest))"
| "first_provider_segment _ = None"

definition final_two :: "string list \<Rightarrow> string \<times> string" where
  "final_two parts = (parts ! (length parts - 2), parts ! (length parts - 1))"

definition address_identity :: "string \<Rightarrow> (string \<times> string) option" where
  "address_identity address =
     (let parts = Split address CHR ''.'' in
      if length parts < 2 then None
      else case first_provider_segment parts of
             Some (t, n) \<Rightarrow> Some (t, n)
           | None \<Rightarrow> Some (final_two parts))"

text \<open>Type and name of the resource a conversion returns, if it returns one.\<close>

definition identity_of :: "Resource option \<Rightarrow> (string \<times> string) option" where
  "identity_of res = map_option (\<lambda>r. (Resource.Type r, Resource.Name r)) res"

text \<open>A planned resource that has only its address.\<close>

definition planned_at :: "string \<Rightarrow> nat PlannedResource" where
  "planned_at address =
     \<lparr>Address = address, Type = [], Name = [], Values = Map.empty, ModulePath = []\<rparr>"

section \<open>The source extractor\<close>

text \<open>
  \<^verbatim>\<open>getStringValue\<close>; the result is \<open>None\<close> where the Go function returns
  \<^verbatim>\<open>("", false)\<close>.
\<close>

fun getStringValue :: "Expression \<Rightarrow> string option" where
  "getStringValue (LiteralValueExpr (cty_String s)) = Some s"
| "getStringValue (TemplateExpr True (cty_String s)) = Some s"
| "getStringValue _ = None"

text \<open>
  The switch of \<^verbatim>\<open>extractTagsFromExpression\<close> on the key expression of an item; it
  leaves \<^verbatim>\<open>key\<close> and \<^verbatim>\<open>keyOk\<close>, here \<open>Some key\<close> when \<^verbatim>\<open>keyOk\<close> is true.
\<close>

fun item_key :: "Expression \<Rightarrow> string option" where
  "item_key (ObjectConsKeyExpr wrapped) =
     (case wrapped of
        ScopeTraversalExpr [t] \<Rightarrow> (case t of TraverseRoot name \<Rightarrow> Some name | TraverseOther \<Rightarrow> None)
      | _ \<Rightarrow> getStringValue wrapped)"
| "item_key (ScopeTraversalExpr traversal) =
     (case traversal of
        [t] \<Rightarrow> (case t of TraverseRoot name \<Rightarrow> Some name | TraverseOther \<Rightarrow> None)
      | _ \<Rightarrow> None)"
| "item_key (LiteralValueExpr v) = getStringValue (LiteralValueExpr v)"
| "item_key (TemplateExpr l v) = getStringValue (TemplateExpr l v)"
| "item_key _ = None"

definition extractTagsFromExpression ::
  "Expression \<Rightarrow> (string \<rightharpoonup> string) \<Rightarrow> (string \<rightharpoonup> string)" where
  "extractTagsFromExpression expr tags =
     (case expr of
        ObjectConsExpr items \<Rightarrow>
          fold (\<lambda>(keyExpr, valueExpr) tags.
                  case item_key keyExpr of
                    None \<Rightarrow> tags
                  | Some key \<Rightarrow>
                      (case getStringValue valueExpr of
                         None \<Rightarrow> tags
                       | Some val \<Rightarrow> tags(key \<mapsto> val)))
               items tags
      | _ \<Rightarrow> tags)"

text \<open>
  \<^verbatim>\<open>extractTags\<close>. Its loop over \<^verbatim>\<open>body.Attributes\<close> acts on the key \<^verbatim>\<open>tags\<close> alone,
  of which a map has at most one entry: it is a lookup. Its loop over the attributes of
  a \<^verbatim>\<open>tags\<close> block writes one entry for every attribute whose expression has a string
  value; the attributes are visited once each and written under their own names, so
  whatever the order, the result is the overlay written here.
\<close>

definition extractTags :: "Body \<Rightarrow> (string \<rightharpoonup> string)" where
  "extractTags body =
     (case body of Body attributes blocks \<Rightarrow>
        let tags = Map.empty;
            tags = (case attributes ''tags'' of
                      Some expr \<Rightarrow> extractTagsFromExpression expr tags
                    | None \<Rightarrow> tags)
        in fold (\<lambda>block tags.
                   case block of Block typ labels (Body attrs inner) defRange \<Rightarrow>
                     if typ = ''tags''
                     then tags ++ (\<lambda>name. case attrs name of
                                             None \<Rightarrow> None
                                           | Some expr \<Rightarrow> getStringValue expr)
                     else tags)
                blocks tags)"

text \<open>
  \<^verbatim>\<open>parseFile\<close>, given what \<^verbatim>\<open>ParseHCLFile\<close> returns for each file name. The result is
  the error or the resources.
\<close>

definition parseFile :: "(string \<Rightarrow> ParsedFile) \<Rightarrow> string \<Rightarrow> string + Resource list" where
  "parseFile ParseHCLFile filename =
     (case ParseHCLFile filename of
        Diagnostics diags \<Rightarrow> Inl (''failed to parse HCL: '' @ diags)
      | Parsed OtherBody \<Rightarrow> Inl ''unexpected body type''
      | Parsed (SyntaxBody (Body attributes blocks)) \<Rightarrow>
          Inr (fold (\<lambda>block resources.
                       case block of Block typ labels body defRange \<Rightarrow>
                         if typ = ''resource'' \<and> length labels \<ge> 2
                         then resources @
                           [\<lparr>Type = labels ! 0,
                             Name = labels ! 1,
                             Tags = extractTags body,
                             Location = defRange,
                             File = filename\<rparr>]
                         else resources)
                    blocks []))"

text \<open>
  \<^verbatim>\<open>ParseTerraformFiles\<close>, given for each root path the calls \<^verbatim>\<open>filepath.Walk\<close> makes
  to the callback as long as the callback returns nil. The callback returns the error it
  is passed, which ends the walk and the whole function with that error, and nil in
  every other case.
\<close>

fun walk_loop ::
  "(string \<Rightarrow> ParsedFile) \<Rightarrow> WalkEntry list \<Rightarrow> ParseResult \<Rightarrow> string + ParseResult" where
  "walk_loop ParseHCLFile [] result = Inr result"
| "walk_loop ParseHCLFile (entry # entries) result =
     (case err entry of
        Some e \<Rightarrow> Inl e
      | None \<Rightarrow>
          if \<not> HasSuffix (filePath entry) ''.tf'' \<or> IsDir entry
          then walk_loop ParseHCLFile entries result
          else (case parseFile ParseHCLFile (filePath entry) of
                  Inl e \<Rightarrow>
                    walk_loop ParseHCLFile entries
                      (result\<lparr>Errors := Errors result @ [filePath entry @ '': '' @ e]\<rparr>)
                | Inr resources \<Rightarrow>
                    walk_loop ParseHCLFile entries
                      (result\<lparr>Resources := Resources result @ resources\<rparr>)))"

fun paths_loop ::
  "(string \<Rightarrow> ParsedFile) \<Rightarrow> (string \<Rightarrow> WalkEntry list) \<Rightarrow> string list \<Rightarrow> ParseResult
     \<Rightarrow> string + ParseResult" where
  "paths_loop ParseHCLFile Walk [] result = Inr result"
| "paths_loop ParseHCLFile Walk (path # paths) result =
     (case walk_loop ParseHCLFile (Walk path) result of
        Inl e \<Rightarrow> Inl e
      | Inr result \<Rightarrow> paths_loop ParseHCLFile Walk paths result)"

definition ParseTerraformFiles ::
  "(string \<Rightarrow> ParsedFile) \<Rightarrow> (string \<Rightarrow> WalkEntry list) \<Rightarrow> string list \<Rightarrow> string + ParseResult" where
  "ParseTerraformFiles ParseHCLFile Walk paths =
     paths_loop ParseHCLFile Walk paths \<lparr>Resources = [], Errors = []\<rparr>"

subsection \<open>The inputs of the examples, and what one file contributes\<close>

text \<open>
  Three files under one root, the second of which does not parse, beside a directory and
  a file of another kind.
\<close>

definition block_range :: Range where
  "block_range = \<lparr>Filename = ''main.tf'', Start = \<lparr>Line = 1, Column = 1, Byte = 0\<rparr>,
                  End = \<lparr>Line = 1, Column = 30, Byte = 29\<rparr>\<rparr>"

definition three_files :: "string \<Rightarrow> ParsedFile" where
  "three_files filename =
     (if filename = ''a.tf''
      then Parsed (SyntaxBody (Body Map.empty
             [Block ''resource'' [''aws_instance'', ''a''] (Body Map.empty []) block_range]))
      else if filename = ''bad.tf'' then Diagnostics ''Unclosed configuration block''
      else if filename = ''c.tf''
      then Parsed (SyntaxBody (Body Map.empty
             [Block ''variable'' [''region''] (Body Map.empty []) block_range,
              Block ''resource'' [''aws_s3_bucket'', ''c''] (Body Map.empty []) block_range]))
      else Diagnostics ''no such file'')"

definition three_walk :: "string \<Rightarrow> WalkEntry list" where
  "three_walk path =
     [\<lparr>filePath = path, IsDir = True, err = None\<rparr>,
      \<lparr>filePath = ''README.md'', IsDir = False, err = None\<rparr>,
      \<lparr>filePath = ''a.tf'', IsDir = False, err = None\<rparr>,
      \<lparr>filePath = ''bad.tf'', IsDir = False, err = None\<rparr>,
      \<lparr>filePath = ''c.tf'', IsDir = False, err = None\<rparr>]"

text \<open>
  Two roots of which the second lies under the first, so that the walks of both reach
  the files of \<^verbatim>\<open>sub\<close>: one that does not parse and one that does.
\<close>

definition overlap_files :: "string \<Rightarrow> ParsedFile" where
  "overlap_files filename =
     (if filename = ''sub/bad.tf'' then Diagnostics ''Unclosed configuration block''
      else if filename = ''sub/ok.tf''
      then Parsed (SyntaxBody (Body Map.empty
             [Block ''resource'' [''aws_instance'', ''ok''] (Body Map.empty []) block_range]))
      else Diagnostics ''no such file'')"

definition overlap_walk :: "string \<Rightarrow> WalkEntry list" where
  "overlap_walk path =
     (if path = ''.''
      then [\<lparr>filePath = ''.'', IsDir = True, err = None\<rparr>,
            \<lparr>filePath = ''sub'', IsDir = True, err = None\<rparr>,
            \<lparr>filePath = ''sub/bad.tf'', IsDir = False, err = None\<rparr>,
            \<lparr>filePath = ''sub/ok.tf'', IsDir = False, err = None\<rparr>]
      else if path = ''sub''
      then [\<lparr>filePath = ''sub'', IsDir = True, err = None\<rparr>,
            \<lparr>filePath = ''sub/bad.tf'', IsDir = False, err = None\<rparr>,
            \<lparr>filePath = ''sub/ok.tf'', IsDir = False, err = None\<rparr>]
      else [])"

text \<open>The labels of a block.\<close>

fun block_labels :: "Block \<Rightarrow> string list" where
  "block_labels (Block typ labels body defRange) = labels"

text \<open>The type of a block.\<close>

fun block_type :: "Block \<Rightarrow> string" where
  "block_type (Block typ labels body defRange) = typ"

text \<open>The calls of a walk that reach \<^verbatim>\<open>parseFile\<close>: files, not directories, named \<^verbatim>\<open>*.tf\<close>.\<close>

definition tf_files :: "WalkEntry list \<Rightarrow> WalkEntry list" where
  "tf_files entries = filter (\<lambda>entry. HasSuffix (filePath entry) ''.tf'' \<and> \<not> IsDir entry) entries"

text \<open>What one parsed file adds to the resources and to the errors.\<close>

definition file_resources :: "(string \<Rightarrow> ParsedFile) \<Rightarrow> WalkEntry \<Rightarrow> Resource list" where
  "file_resources ParseHCLFile entry =
     (case parseFile ParseHCLFile (filePath entry) of Inl e \<Rightarrow> [] | Inr resources \<Rightarrow> resources)"

definition file_errors :: "(string \<Rightarrow> ParsedFile) \<Rightarrow> WalkEntry \<Rightarrow> string list" where
  "file_errors ParseHCLFile entry =
     (case parseFile ParseHCLFile (filePath entry) of
        Inl e \<Rightarrow> [filePath entry @ '': '' @ e]
      | Inr resources \<Rightarrow> [])"

section \<open>Properties of the loops\<close>

lemma fold_append_if:
  "fold (\<lambda>x vs. if P x then vs @ [f x] else vs) xs acc = acc @ map f (filter P xs)"
  by (induction xs arbitrary: acc) auto

lemma shouldIgnoreResource_loop_iff: "shouldIgnoreResource_loop t xs \<longleftrightarrow> t \<in> set xs"
  by (induction xs) auto

lemma isResourceTypeInList_iff: "isResourceTypeInList t xs \<longleftrightarrow> t \<in> set xs"
  by (induction xs) auto

lemma isValueAllowed_iff: "isValueAllowed v xs \<longleftrightarrow> v \<in> set xs"
  by (induction xs) auto

lemma forbiddenTags_loop_eq:
  "forbiddenTags_loop resource rule acc = acc @ forbiddenTags_loop resource rule []"
  unfolding forbiddenTags_loop_def by (simp add: fold_append_if)

lemma tagConstraints_fold:
  "fold (\<lambda>constraint violations.
             case Tags resource (TagConstraint.Tag constraint) of
               None \<Rightarrow> violations
             | Some v \<Rightarrow>
                 if \<not> isValueAllowed v (AllowedValues constraint)
                 then violations @
                   [\<lparr>Rule = Rule.Name rule,
                     Description = Rule.Description rule,
                     Resource = resource,
                     Message = ''Invalid value for tag '' @ TagConstraint.Tag constraint
                       @ '': '' @ [CHR 0x27] @ v @ [CHR 0x27] @ ''. Allowed values: ''
                       @ Join (AllowedValues constraint) '', ''\<rparr>]
                 else violations) cs acc =
     acc @ map (\<lambda>c. \<lparr>Rule = Rule.Name rule, Description = Rule.Description rule,
                     Resource = resource,
                     Message = ''Invalid value for tag '' @ TagConstraint.Tag c
                       @ '': '' @ [CHR 0x27] @ the (Tags resource (TagConstraint.Tag c)) @ [CHR 0x27] @ ''. Allowed values: ''
                       @ Join (AllowedValues c) '', ''\<rparr>)
          (filter (\<lambda>c. case Tags resource (TagConstraint.Tag c) of None \<Rightarrow> False
                        | Some v \<Rightarrow> v \<notin> set (AllowedValues c)) cs)"
  by (induction cs arbitrary: acc) (auto simp: isValueAllowed_iff split: option.splits)

lemma tagConstraints_loop_concat:
  "tagConstraints_loop resource rule acc =
     acc @ map (\<lambda>c. \<lparr>Rule = Rule.Name rule, Description = Rule.Description rule,
                     Resource = resource,
                     Message = ''Invalid value for tag '' @ TagConstraint.Tag c
                       @ '': '' @ [CHR 0x27] @ the (Tags resource (TagConstraint.Tag c)) @ [CHR 0x27] @ ''. Allowed values: ''
                       @ Join (AllowedValues c) '', ''\<rparr>)
          (filter (\<lambda>c. case Tags resource (TagConstraint.Tag c) of None \<Rightarrow> False
                        | Some v \<Rightarrow> v \<notin> set (AllowedValues c)) (TagConstraints rule))"
  unfolding tagConstraints_loop_def by (rule tagConstraints_fold)

lemma tagPatterns_loop_concat:
  "tagPatterns_loop ks resource rule acc =
     acc @ concat (map (\<lambda>k. map (\<lambda>p. \<lparr>Rule = Rule.Name rule, Description = Rule.Description rule,
                     Resource = resource,
                     Message = ''Tag name '' @ [CHR 0x27] @ k @ [CHR 0x27]
                           @ '' does not match pattern: '' @ TagPattern.Message p\<rparr>)
          (filter (\<lambda>p. \<not> Validate_pattern p k) (TagPatterns rule))) ks)"
  unfolding tagPatterns_loop_def
  by (induction ks arbitrary: acc) (auto simp: fold_append_if)

lemma map_enumerate_nth:
  "map f (enumerate n xs) = map (\<lambda>i. f (n + i, xs ! i)) [0..<length xs]"
  by (rule nth_equalityI) (auto simp: nth_enumerate_eq)

lemma checkGlobalRequiredTags_eq:
  "checkGlobalRequiredTags cfg resource =
     map (\<lambda>name. \<lparr>Rule = ''global-required-tags'', Description = ''Global required tags'',
                     Resource = resource, Message = ''Missing required tag: '' @ name\<rparr>)
         (filter (\<lambda>name. Tags resource name = None) (AlwaysRequiredTags (Global cfg)))"
  unfolding checkGlobalRequiredTags_def by (simp add: fold_append_if)

lemma fold_case_prod_concat:
  "fold (\<lambda>(j, x) vs. vs @ g j x) xs acc = acc @ concat (map (\<lambda>(j, x). g j x) xs)"
  by (induction xs arbitrary: acc) auto

lemma Validate_fold:
  "fold (\<lambda>(i, resource) violations.
             if P resource then violations
             else fold (\<lambda>(j, rule) violations. violations @ h i j resource rule) ys
                       (violations @ g resource)) xs acc
   = acc @ concat (map (\<lambda>(i, resource).
        if P resource then []
        else g resource @ concat (map (\<lambda>(j, rule). h i j resource rule) ys)) xs)"
proof (induction xs arbitrary: acc)
  case Nil
  show ?case by simp
next
  case (Cons x xs)
  obtain i resource where x: "x = (i, resource)" by (cases x)
  have inner: "fold (\<lambda>(j, rule) violations. violations @ h i j resource rule) ys a
      = a @ concat (map (\<lambda>(j, rule). h i j resource rule) ys)" for a
    by (rule fold_case_prod_concat)
  show ?case
    by (simp add: x Cons.IH inner)
qed

lemma Validate_concat:
  "Validate cfg order resources =
     concat (map (\<lambda>(i, resource).
        if shouldIgnoreResource cfg (Type resource) then []
        else checkGlobalRequiredTags cfg resource
             @ concat (map (\<lambda>(j, rule). checkRule (order i j) resource rule)
                        (enumerate 0 (Rules cfg))))
      (enumerate 0 resources))"
  unfolding Validate_def by (simp add: Validate_fold)

lemma checkRule_not_applicable:
  "\<not> rule_applies resource rule \<Longrightarrow> checkRule ks resource rule = []"
  by (auto simp: checkRule_def rule_applies_def isResourceTypeInList_iff checkCondition_def
           split: option.splits)

lemma checkRule_applicable:
  "rule_applies resource rule \<Longrightarrow>
   checkRule ks resource rule =
     requiredTags_loop resource rule [] @ forbiddenTags_loop resource rule []
     @ tagConstraints_loop resource rule [] @ tagPatterns_loop ks resource rule []"
proof -
  assume a: "rule_applies resource rule"
  then have "checkRule ks resource rule =
      tagPatterns_loop ks resource rule
             (tagConstraints_loop resource rule
               (forbiddenTags_loop resource rule
                 (requiredTags_loop resource rule [])))"
    by (auto simp: checkRule_def rule_applies_def isResourceTypeInList_iff checkCondition_def
           split: option.splits)
  also have "\<dots> = requiredTags_loop resource rule [] @ forbiddenTags_loop resource rule []
     @ tagConstraints_loop resource rule [] @ tagPatterns_loop ks resource rule []"
  proof -
    have 1: "tagPatterns_loop ks resource rule acc = acc @ tagPatterns_loop ks resource rule []" for acc
      by (simp add: tagPatterns_loop_concat)
    have 2: "tagConstraints_loop resource rule acc = acc @ tagConstraints_loop resource rule []" for acc
      by (simp add: tagConstraints_loop_concat)
    show ?thesis
      by (subst 1, subst 2, subst forbiddenTags_loop_eq) simp
  qed
  finally show ?thesis .
qed

text \<open>
  C1. \<^verbatim>\<open>Validate\<close> handles the resources in input order. A resource whose type is in
  \<^verbatim>\<open>Global.IgnoreResourceTypes\<close> contributes nothing. Any other resource contributes
  first one "Missing required tag" violation under the rule name global-required-tags for
  each name of \<^verbatim>\<open>Global.AlwaysRequiredTags\<close> that is not a key of its tags, in the
  configured order, and then the violations of each rule, in rule order. The combined
  scenario yields exactly the three violations Owner, Name, Test, in that order.
\<close>

theorem Validate_pipeline:
  "Validate cfg order resources =
     concat (map (\<lambda>(i, resource).
        if Type resource \<in> set (IgnoreResourceTypes (Global cfg)) then []
        else map (\<lambda>name. \<lparr>Rule = ''global-required-tags'',
                             Description = ''Global required tags'',
                             Resource = resource,
                             Message = ''Missing required tag: '' @ name\<rparr>)
                 (filter (\<lambda>name. name \<notin> dom (Tags resource)) (AlwaysRequiredTags (Global cfg)))
             @ concat (map (\<lambda>(j, rule). checkRule (order i j) resource rule)
                        (enumerate 0 (Rules cfg))))
      (enumerate 0 resources))
   \<and> Validate combined_config order [combined_resource] =
      [\<lparr>Rule = ''global-required-tags'', Description = ''Global required tags'',
        Resource = combined_resource, Message = ''Missing required tag: Owner''\<rparr>,
       \<lparr>Rule = [], Description = [],
        Resource = combined_resource, Message = ''Missing required tag: Name''\<rparr>,
       \<lparr>Rule = [], Description = [],
        Resource = combined_resource, Message = ''Forbidden tag found: Test''\<rparr>]"
proof
  have dom: "(name \<notin> dom m) = (m name = None)" for name and m :: "string \<rightharpoonup> string"
    by auto
  show "Validate cfg order resources =
     concat (map (\<lambda>(i, resource).
        if Type resource \<in> set (IgnoreResourceTypes (Global cfg)) then []
        else map (\<lambda>name. \<lparr>Rule = ''global-required-tags'',
                             Description = ''Global required tags'',
                             Resource = resource,
                             Message = ''Missing required tag: '' @ name\<rparr>)
                 (filter (\<lambda>name. name \<notin> dom (Tags resource)) (AlwaysRequiredTags (Global cfg)))
             @ concat (map (\<lambda>(j, rule). checkRule (order i j) resource rule)
                        (enumerate 0 (Rules cfg))))
      (enumerate 0 resources))"
    unfolding Validate_concat checkGlobalRequiredTags_eq shouldIgnoreResource_def
      shouldIgnoreResource_loop_iff dom ..
next
  have r1: "checkRule ks combined_resource (zero_Rule\<lparr>RequiredTags := [''Name'']\<rparr>)
      = [\<lparr>Rule = [], Description = [],
        Resource = combined_resource, Message = ''Missing required tag: Name''\<rparr>]" for ks
    by (simp add: checkRule_def requiredTags_loop_def forbiddenTags_loop_def
        tagConstraints_loop_def tagPatterns_loop_concat zero_Rule_def combined_resource_def
        zero_Resource_def)
  have r2: "checkRule ks combined_resource (zero_Rule\<lparr>ForbiddenTags := [''Test'']\<rparr>)
      = [\<lparr>Rule = [], Description = [],
        Resource = combined_resource, Message = ''Forbidden tag found: Test''\<rparr>]" for ks
    by (simp add: checkRule_def requiredTags_loop_def forbiddenTags_loop_def
        tagConstraints_loop_def tagPatterns_loop_concat zero_Rule_def combined_resource_def
        zero_Resource_def)
  have g: "checkGlobalRequiredTags combined_config combined_resource =
      [\<lparr>Rule = ''global-required-tags'', Description = ''Global required tags'',
        Resource = combined_resource, Message = ''Missing required tag: Owner''\<rparr>]"
    by (simp add: checkGlobalRequiredTags_def combined_config_def combined_resource_def
        zero_Resource_def)
  have i: "\<not> shouldIgnoreResource combined_config (Type combined_resource)"
    by (simp add: shouldIgnoreResource_def combined_config_def)
  have rules: "Rules combined_config =
      [zero_Rule\<lparr>RequiredTags := [''Name'']\<rparr>, zero_Rule\<lparr>ForbiddenTags := [''Test'']\<rparr>]"
    by (simp add: combined_config_def)
  show "Validate combined_config order [combined_resource] =
      [\<lparr>Rule = ''global-required-tags'', Description = ''Global required tags'',
        Resource = combined_resource, Message = ''Missing required tag: Owner''\<rparr>,
       \<lparr>Rule = [], Description = [],
        Resource = combined_resource, Message = ''Missing required tag: Name''\<rparr>,
       \<lparr>Rule = [], Description = [],
        Resource = combined_resource, Message = ''Forbidden tag found: Test''\<rparr>]"
    by (simp add: Validate_def i g rules r1 r2)
qed

theorem Validate_pipeline_witness:
  "Validate (combined_config\<lparr>Global := \<lparr>AlwaysRequiredTags = [''Owner''],
                                         IgnoreResourceTypes = [''aws_iam_policy'']\<rparr>\<rparr>)
     (\<lambda>i j. [''Test''])
     [combined_resource\<lparr>Type := ''aws_iam_policy''\<rparr>,
      combined_resource\<lparr>Type := ''aws_instance''\<rparr>] =
   [\<lparr>Rule = ''global-required-tags'', Description = ''Global required tags'',
     Resource = combined_resource\<lparr>Type := ''aws_instance''\<rparr>,
     Message = ''Missing required tag: Owner''\<rparr>,
    \<lparr>Rule = [], Description = [],
     Resource = combined_resource\<lparr>Type := ''aws_instance''\<rparr>,
     Message = ''Missing required tag: Name''\<rparr>,
    \<lparr>Rule = [], Description = [],
     Resource = combined_resource\<lparr>Type := ''aws_instance''\<rparr>,
     Message = ''Forbidden tag found: Test''\<rparr>]"
proof -
  let ?r = "combined_resource\<lparr>Type := ''aws_instance''\<rparr>"
  have r1: "checkRule ks ?r (zero_Rule\<lparr>RequiredTags := [''Name'']\<rparr>)
      = [\<lparr>Rule = [], Description = [],
        Resource = ?r, Message = ''Missing required tag: Name''\<rparr>]" for ks
    by (simp add: checkRule_def requiredTags_loop_def forbiddenTags_loop_def
        tagConstraints_loop_def tagPatterns_loop_concat zero_Rule_def combined_resource_def
        zero_Resource_def)
  have r2: "checkRule ks ?r (zero_Rule\<lparr>ForbiddenTags := [''Test'']\<rparr>)
      = [\<lparr>Rule = [], Description = [],
        Resource = ?r, Message = ''Forbidden tag found: Test''\<rparr>]" for ks
    by (simp add: checkRule_def requiredTags_loop_def forbiddenTags_loop_def
        tagConstraints_loop_def tagPatterns_loop_concat zero_Rule_def combined_resource_def
        zero_Resource_def)
  have d: "dom (Tags combined_resource) = {''Test''}"
    by (simp add: combined_resource_def zero_Resource_def)
  show ?thesis
    using Validate_pipeline [THEN conjunct1, of
        "combined_config\<lparr>Global := \<lparr>AlwaysRequiredTags = [''Owner''],
                                         IgnoreResourceTypes = [''aws_iam_policy'']\<rparr>\<rparr>"
        "\<lambda>i j. [''Test'']"
        "[combined_resource\<lparr>Type := ''aws_iam_policy''\<rparr>, ?r]"]
    by (simp add: combined_config_def r1 r2 d)
qed

text \<open>
  C8. A rule contributes no violations unless both gates hold: its resource types are
  empty or contain the resource's type, and its condition is nil or the resource's tags
  hold the condition's tag with exactly the condition's value. The rule conditioned on
  Environment = prod yields nothing for a resource tagged Environment = dev.
\<close>

theorem checkRule_gates:
  "(\<not> ((ResourceTypes rule = [] \<or> Type resource \<in> set (ResourceTypes rule)) \<and>
        (Rule.Condition rule = None \<or>
         (\<exists>c. Rule.Condition rule = Some c
              \<and> Tags resource (Condition.Tag c) = Some (Condition.Value c))))
    \<longrightarrow> checkRule ks resource rule = [])
   \<and> checkRule ks (zero_Resource\<lparr>Tags := [''Environment'' \<mapsto> ''dev'']\<rparr>)
        (zero_Rule\<lparr>Condition := Some \<lparr>Condition.Tag = ''Environment'', Value = ''prod''\<rparr>,
                    RequiredTags := [''Owner'']\<rparr>) = []"
proof -
  have "rule_applies resource rule \<longleftrightarrow>
        (ResourceTypes rule = [] \<or> Type resource \<in> set (ResourceTypes rule)) \<and>
        (Rule.Condition rule = None \<or>
         (\<exists>c. Rule.Condition rule = Some c
              \<and> Tags resource (Condition.Tag c) = Some (Condition.Value c)))"
    by (auto simp: rule_applies_def split: option.splits)
  moreover have "\<not> rule_applies (zero_Resource\<lparr>Tags := [''Environment'' \<mapsto> ''dev'']\<rparr>)
        (zero_Rule\<lparr>Condition := Some \<lparr>Condition.Tag = ''Environment'', Value = ''prod''\<rparr>,
                    RequiredTags := [''Owner'']\<rparr>)"
    by (simp add: rule_applies_def)
  ultimately show ?thesis
    using checkRule_not_applicable by blast
qed

theorem checkRule_gates_witness:
  "checkRule [''Environment''] (zero_Resource\<lparr>Type := ''aws_s3_bucket'', Tags := [''Environment'' \<mapsto> ''production'']\<rparr>)
        (zero_Rule\<lparr>Condition := Some \<lparr>Condition.Tag = ''Environment'', Value = ''prod''\<rparr>,
                    RequiredTags := [''Owner'']\<rparr>) = []
   \<and> checkRule [''Environment''] (zero_Resource\<lparr>Type := ''aws_s3_bucket'', Tags := [''Environment'' \<mapsto> ''prod'']\<rparr>)
        (zero_Rule\<lparr>ResourceTypes := [''aws_instance''], RequiredTags := [''Owner'']\<rparr>) = []"
  using checkRule_gates [THEN conjunct1, of
      "zero_Rule\<lparr>Condition := Some \<lparr>Condition.Tag = ''Environment'', Value = ''prod''\<rparr>,
                    RequiredTags := [''Owner'']\<rparr>"
      "zero_Resource\<lparr>Type := ''aws_s3_bucket'', Tags := [''Environment'' \<mapsto> ''production'']\<rparr>"
      "[''Environment'']"]
    checkRule_gates [THEN conjunct1, of
      "zero_Rule\<lparr>ResourceTypes := [''aws_instance''], RequiredTags := [''Owner'']\<rparr>"
      "zero_Resource\<lparr>Type := ''aws_s3_bucket'', Tags := [''Environment'' \<mapsto> ''prod'']\<rparr>"
      "[''Environment'']"]
  by (simp add: zero_Rule_def zero_Resource_def)

lemma tagConstraints_fold_concat:
  "fold (\<lambda>constraint violations.
             case Tags resource (TagConstraint.Tag constraint) of
               None \<Rightarrow> violations
             | Some v \<Rightarrow>
                 if \<not> isValueAllowed v (AllowedValues constraint)
                 then violations @
                   [\<lparr>Rule = Rule.Name rule,
                     Description = Rule.Description rule,
                     Resource = resource,
                     Message = ''Invalid value for tag '' @ TagConstraint.Tag constraint
                       @ '': '' @ [CHR 0x27] @ v @ [CHR 0x27] @ ''. Allowed values: ''
                       @ Join (AllowedValues constraint) '', ''\<rparr>]
                 else violations) cs acc =
     acc @ concat (map (\<lambda>c.
         case Tags resource (TagConstraint.Tag c) of
           None \<Rightarrow> []
         | Some v \<Rightarrow>
             if v \<in> set (AllowedValues c) then []
             else [\<lparr>Rule = Rule.Name rule, Description = Rule.Description rule,
                    Resource = resource,
                    Message = ''Invalid value for tag '' @ TagConstraint.Tag c @ '': ''
                      @ [CHR 0x27] @ v @ [CHR 0x27] @ ''. Allowed values: ''
                      @ Join (AllowedValues c) '', ''\<rparr>]) cs)"
  by (induction cs arbitrary: acc) (auto simp: isValueAllowed_iff split: option.splits)

text \<open>
  C6. For an applicable rule, the TagConstraints check contributes, constraint by
  constraint in configured order: nothing when the constraint's tag is not a key of the
  resource's tags; nothing when the tag's value is one of the allowed values (equality of
  strings, so case-sensitive); and otherwise exactly one violation whose message is
  "Invalid value for tag", the tag, the value in single quotes, and the allowed values
  joined by comma and space. With no allowed values every present value violates.
\<close>

theorem tagConstraints_check:
  "rule_applies resource rule \<Longrightarrow>
   checkRule ks resource rule =
     requiredTags_loop resource rule [] @ forbiddenTags_loop resource rule []
     @ concat (map (\<lambda>c.
         case Tags resource (TagConstraint.Tag c) of
           None \<Rightarrow> []
         | Some v \<Rightarrow>
             if v \<in> set (AllowedValues c) then []
             else [\<lparr>Rule = Rule.Name rule, Description = Rule.Description rule,
                    Resource = resource,
                    Message = ''Invalid value for tag '' @ TagConstraint.Tag c @ '': ''
                      @ [CHR 0x27] @ v @ [CHR 0x27] @ ''. Allowed values: ''
                      @ Join (AllowedValues c) '', ''\<rparr>])
         (TagConstraints rule))
     @ tagPatterns_loop ks resource rule []"
proof -
  assume a: "rule_applies resource rule"
  have "tagConstraints_loop resource rule [] =
      concat (map (\<lambda>c.
         case Tags resource (TagConstraint.Tag c) of
           None \<Rightarrow> []
         | Some v \<Rightarrow>
             if v \<in> set (AllowedValues c) then []
             else [\<lparr>Rule = Rule.Name rule, Description = Rule.Description rule,
                    Resource = resource,
                    Message = ''Invalid value for tag '' @ TagConstraint.Tag c @ '': ''
                      @ [CHR 0x27] @ v @ [CHR 0x27] @ ''. Allowed values: ''
                      @ Join (AllowedValues c) '', ''\<rparr>])
         (TagConstraints rule))"
    unfolding tagConstraints_loop_def
    by (rule tagConstraints_fold_concat [where acc = "[]", simplified])
  with checkRule_applicable [OF a] show ?thesis by simp
qed

theorem tagConstraints_check_witness:
  "checkRule [''Environment'', ''Team'']
     (zero_Resource\<lparr>Tags := [''Environment'' \<mapsto> ''production'', ''Team'' \<mapsto> ''x'']\<rparr>)
     constraint_rule =
   [\<lparr>Rule = [], Description = [],
     Resource = zero_Resource\<lparr>Tags := [''Environment'' \<mapsto> ''production'', ''Team'' \<mapsto> ''x'']\<rparr>,
     Message = ''Invalid value for tag Environment: '' @ [CHR 0x27] @ ''production'' @ [CHR 0x27]
       @ ''. Allowed values: dev, staging, prod''\<rparr>,
    \<lparr>Rule = [], Description = [],
     Resource = zero_Resource\<lparr>Tags := [''Environment'' \<mapsto> ''production'', ''Team'' \<mapsto> ''x'']\<rparr>,
     Message = ''Invalid value for tag Team: '' @ [CHR 0x27] @ ''x'' @ [CHR 0x27]
       @ ''. Allowed values: ''\<rparr>]
   \<and> checkRule [''Environment'']
     (zero_Resource\<lparr>Tags := [''Environment'' \<mapsto> ''prod'']\<rparr>) constraint_rule = []"
proof -
  have a: "rule_applies r constraint_rule" for r
    by (simp add: rule_applies_def constraint_rule_def zero_Rule_def)
  show ?thesis
    using tagConstraints_check [OF a, of "[''Environment'', ''Team'']"
        "zero_Resource\<lparr>Tags := [''Environment'' \<mapsto> ''production'', ''Team'' \<mapsto> ''x'']\<rparr>"]
      tagConstraints_check [OF a, of "[''Environment'']"
        "zero_Resource\<lparr>Tags := [''Environment'' \<mapsto> ''prod'']\<rparr>"]
    by (simp add: constraint_rule_def zero_Rule_def requiredTags_loop_def forbiddenTags_loop_def
        tagPatterns_loop_concat)
qed

lemma length_filter_card: "length (filter P xs) = card {j. j < length xs \<and> P (xs ! j)}"
  by (rule length_filter_conv_card)

lemma length_cross:
  assumes "distinct ks"
  shows "length (concat (map (\<lambda>k. map (f k) (filter (P k) ps)) ks))
       = card {(k, j). k \<in> set ks \<and> j < length ps \<and> P k (ps ! j)}"
proof -
  have "length (concat (map (\<lambda>k. map (f k) (filter (P k) ps)) ks))
      = sum_list (map (\<lambda>k. length (filter (P k) ps)) ks)"
    by (simp add: length_concat comp_def)
  also have "\<dots> = (\<Sum>k\<in>set ks. length (filter (P k) ps))"
    using assms by (simp add: sum_list_distinct_conv_sum_set)
  also have "\<dots> = (\<Sum>k\<in>set ks. card {j. j < length ps \<and> P k (ps ! j)})"
    by (simp add: length_filter_card)
  also have "\<dots> = card (SIGMA k:set ks. {j. j < length ps \<and> P k (ps ! j)})"
    by simp
  also have "(SIGMA k:set ks. {j. j < length ps \<and> P k (ps ! j)})
      = {(k, j). k \<in> set ks \<and> j < length ps \<and> P k (ps ! j)}"
    by auto
  finally show ?thesis .
qed

lemma two_keys_orders:
  assumes "distinct ks" and "set ks = {a, b}" and "a \<noteq> b"
  shows "ks = [a, b] \<or> ks = [b, a]"
proof -
  have "length ks = 2"
    using assms distinct_card [of ks] by simp
  then obtain x y where ks: "ks = [x, y]"
    by (metis (no_types, opaque_lifting) One_nat_def Suc_1 length_0_conv length_Suc_conv)
  with assms show ?thesis by auto
qed

lemma pattern_example:
  "ks = [''Name'', ''environment''] \<or> ks = [''environment'', ''Name''] \<Longrightarrow>
   checkRule ks pattern_resource pattern_rule =
     [\<lparr>Rule = [], Description = [], Resource = pattern_resource,
       Message = ''Tag name '' @ [CHR 0x27] @ ''environment'' @ [CHR 0x27]
         @ '' does not match pattern: Tag names must start with uppercase''\<rparr>]"
proof -
  have a: "rule_applies pattern_resource pattern_rule"
    by (simp add: rule_applies_def pattern_rule_def zero_Rule_def)
  have n: "Validate_pattern leading_uppercase ''Name''"
    by (simp add: Validate_pattern_def leading_uppercase_def)
  have e: "\<not> Validate_pattern leading_uppercase ''environment''"
    by (simp add: Validate_pattern_def leading_uppercase_def)
  have m: "TagPattern.Message leading_uppercase = ''Tag names must start with uppercase''"
    by (simp add: leading_uppercase_def)
  assume "ks = [''Name'', ''environment''] \<or> ks = [''environment'', ''Name'']"
  then show ?thesis
    unfolding checkRule_applicable [OF a]
    by (auto simp: requiredTags_loop_def forbiddenTags_loop_def tagConstraints_loop_def
        tagPatterns_loop_concat pattern_rule_def zero_Rule_def n e m)
qed

text \<open>
  C7. For an applicable rule, the TagPatterns check goes through the keys of the
  resource's tags (each key once, in the order of the map iteration) and, for each key,
  through the rule's patterns in configured order, and emits exactly one violation
  "Tag name '<name>' does not match pattern: <message>" for each pair of a key and a
  pattern the key fails to match: as many violations as there are failing pairs. In the
  example the one violation is for environment, whichever order the map is iterated in.
\<close>

theorem tagPatterns_check:
  "(rule_applies resource rule \<and> range_order ks (Tags resource) \<longrightarrow>
     checkRule ks resource rule =
       requiredTags_loop resource rule [] @ forbiddenTags_loop resource rule []
       @ tagConstraints_loop resource rule []
       @ concat (map (\<lambda>k.
           map (\<lambda>p. \<lparr>Rule = Rule.Name rule, Description = Rule.Description rule,
                      Resource = resource,
                      Message = ''Tag name '' @ [CHR 0x27] @ k @ [CHR 0x27]
                        @ '' does not match pattern: '' @ TagPattern.Message p\<rparr>)
               (filter (\<lambda>p. \<not> Validate_pattern p k) (TagPatterns rule))) ks)
     \<and> length (tagPatterns_loop ks resource rule []) =
         card {(k, j). k \<in> dom (Tags resource) \<and> j < length (TagPatterns rule)
                       \<and> \<not> Validate_pattern (TagPatterns rule ! j) k})
   \<and> (range_order ks (Tags pattern_resource) \<longrightarrow>
        checkRule ks pattern_resource pattern_rule =
          [\<lparr>Rule = [], Description = [], Resource = pattern_resource,
            Message = ''Tag name '' @ [CHR 0x27] @ ''environment'' @ [CHR 0x27]
              @ '' does not match pattern: Tag names must start with uppercase''\<rparr>])"
proof (intro conjI impI)
  assume a: "rule_applies resource rule \<and> range_order ks (Tags resource)"
  show "checkRule ks resource rule =
       requiredTags_loop resource rule [] @ forbiddenTags_loop resource rule []
       @ tagConstraints_loop resource rule []
       @ concat (map (\<lambda>k.
           map (\<lambda>p. \<lparr>Rule = Rule.Name rule, Description = Rule.Description rule,
                      Resource = resource,
                      Message = ''Tag name '' @ [CHR 0x27] @ k @ [CHR 0x27]
                        @ '' does not match pattern: '' @ TagPattern.Message p\<rparr>)
               (filter (\<lambda>p. \<not> Validate_pattern p k) (TagPatterns rule))) ks)"
    using a checkRule_applicable [of resource rule ks]
    by (simp add: tagPatterns_loop_concat)
  from a have d: "distinct ks" and s: "set ks = dom (Tags resource)"
    by (simp_all add: range_order_def)
  show "length (tagPatterns_loop ks resource rule []) =
         card {(k, j). k \<in> dom (Tags resource) \<and> j < length (TagPatterns rule)
                       \<and> \<not> Validate_pattern (TagPatterns rule ! j) k}"
    unfolding tagPatterns_loop_concat s [symmetric]
    using length_cross [OF d, where P = "\<lambda>k p. \<not> Validate_pattern p k"] by simp
next
  assume "range_order ks (Tags pattern_resource)"
  then have "distinct ks" and "set ks = {''Name'', ''environment''}"
    by (auto simp: range_order_def pattern_resource_def zero_Resource_def)
  then have "ks = [''Name'', ''environment''] \<or> ks = [''environment'', ''Name'']"
    by (intro two_keys_orders) simp_all
  then show "checkRule ks pattern_resource pattern_rule =
          [\<lparr>Rule = [], Description = [], Resource = pattern_resource,
            Message = ''Tag name '' @ [CHR 0x27] @ ''environment'' @ [CHR 0x27]
              @ '' does not match pattern: Tag names must start with uppercase''\<rparr>]"
    by (rule pattern_example)
qed

theorem tagPatterns_check_witness:
  "range_order [''environment'', ''Name''] (Tags pattern_resource)
   \<and> rule_applies pattern_resource pattern_rule
   \<and> checkRule [''environment'', ''Name''] pattern_resource pattern_rule =
          [\<lparr>Rule = [], Description = [], Resource = pattern_resource,
            Message = ''Tag name '' @ [CHR 0x27] @ ''environment'' @ [CHR 0x27]
              @ '' does not match pattern: Tag names must start with uppercase''\<rparr>]
   \<and> length (tagPatterns_loop [''environment'', ''Name''] pattern_resource pattern_rule []) = 1"
proof -
  have r: "range_order [''environment'', ''Name''] (Tags pattern_resource)"
    by (auto simp: range_order_def pattern_resource_def zero_Resource_def)
  have a: "rule_applies pattern_resource pattern_rule"
    by (simp add: rule_applies_def pattern_rule_def zero_Rule_def)
  have l: "length (tagPatterns_loop [''environment'', ''Name''] pattern_resource pattern_rule []) = 1"
    by (simp add: tagPatterns_loop_def pattern_rule_def zero_Rule_def Validate_pattern_def
        leading_uppercase_def)
  from r a l
    tagPatterns_check [THEN conjunct2, THEN mp, OF r]
  show ?thesis
    by (intro conjI)
qed

lemma mset_concat_map_cong:
  "(\<And>x. x \<in> set xs \<Longrightarrow> mset (f x) = mset (g x)) \<Longrightarrow>
   mset (concat (map f xs)) = mset (concat (map g xs))"
  by (induction xs) auto

lemma mset_concat_map_perm:
  "mset ks = mset ks' \<Longrightarrow> mset (concat (map f ks)) = mset (concat (map f ks'))"
proof -
  have "mset (concat (map f ks)) = (\<Sum>k\<in>#mset ks. mset (f k))" for ks
    by (induction ks) auto
  then show "mset ks = mset ks' \<Longrightarrow> ?thesis" by simp
qed

lemma range_order_mset:
  "range_order ks m \<Longrightarrow> range_order ks' m \<Longrightarrow> mset ks = mset ks'"
  by (simp add: range_order_def set_eq_iff_mset_eq_distinct [symmetric])

lemma tagPatterns_loop_mset:
  assumes "range_order ks (Tags resource)" and "range_order ks' (Tags resource)"
  shows "mset (tagPatterns_loop ks resource rule []) = mset (tagPatterns_loop ks' resource rule [])"
  unfolding tagPatterns_loop_concat append_Nil
  by (rule mset_concat_map_perm) (rule range_order_mset [OF assms])

lemma checkRule_mset:
  assumes "range_order ks (Tags resource)" and "range_order ks' (Tags resource)"
  shows "mset (checkRule ks resource rule) = mset (checkRule ks' resource rule)"
proof (cases "rule_applies resource rule")
  case True
  then show ?thesis
    by (simp add: checkRule_applicable tagPatterns_loop_mset [OF assms])
next
  case False
  then show ?thesis
    by (simp add: checkRule_not_applicable)
qed

lemma range_order_unique:
  assumes "range_order ks m" and "range_order ks' m" and "card (dom m) \<le> 1"
  shows "ks = ks'"
proof -
  have l: "length ks \<le> 1" "length ks' \<le> 1"
    using assms distinct_card [of ks] distinct_card [of ks']
    by (simp_all add: range_order_def)
  have s: "set ks = set ks'"
    using assms by (simp add: range_order_def)
  show ?thesis
  proof (cases ks)
    case Nil
    with s show ?thesis by simp
  next
    case (Cons a as)
    with l have ks: "ks = [a]" by simp
    with s l show ?thesis by (cases ks') auto
  qed
qed

lemma Validate_indexed:
  "Validate cfg order resources =
     concat (map (\<lambda>i.
        if shouldIgnoreResource cfg (Type (resources ! i)) then []
        else checkGlobalRequiredTags cfg (resources ! i)
             @ concat (map (\<lambda>j. checkRule (order i j) (resources ! i) (Rules cfg ! j))
                        [0..<length (Rules cfg)]))
      [0..<length resources])"
  unfolding Validate_concat map_enumerate_nth by (simp cong: if_cong)

lemma shuffle_checkRule:
  "checkRule [a, b] shuffle_resource pattern_rule =
     (if Validate_pattern leading_uppercase a then [] else
       [\<lparr>Rule = [], Description = [], Resource = shuffle_resource,
         Message = ''Tag name '' @ [CHR 0x27] @ a @ [CHR 0x27]
           @ '' does not match pattern: Tag names must start with uppercase''\<rparr>])
     @ (if Validate_pattern leading_uppercase b then [] else
       [\<lparr>Rule = [], Description = [], Resource = shuffle_resource,
         Message = ''Tag name '' @ [CHR 0x27] @ b @ [CHR 0x27]
           @ '' does not match pattern: Tag names must start with uppercase''\<rparr>])"
proof -
  have a: "rule_applies shuffle_resource pattern_rule"
    by (simp add: rule_applies_def pattern_rule_def zero_Rule_def)
  have m: "TagPattern.Message leading_uppercase = ''Tag names must start with uppercase''"
    by (simp add: leading_uppercase_def)
  show ?thesis
    unfolding checkRule_applicable [OF a]
    by (simp add: requiredTags_loop_def forbiddenTags_loop_def tagConstraints_loop_def
        tagPatterns_loop_concat pattern_rule_def zero_Rule_def m)
qed

text \<open>
  C2. Two runs of \<^verbatim>\<open>Validate\<close> on the same resources and the same config are to
  return the same sequence of violations. The code does not: the TagPatterns loop ranges
  over the map \<^verbatim>\<open>resource.Tags\<close> without ordering its keys, and for a resource with the
  tags env and team, which both fail the rule's pattern, a run that visits env first and
  a run that visits team first return the two violations in opposite orders.
\<close>

theorem Validate_order_varies:
  "range_orders order_env_team shuffle_config [shuffle_resource]
   \<and> range_orders order_team_env shuffle_config [shuffle_resource]
   \<and> Validate shuffle_config order_env_team [shuffle_resource] =
       [\<lparr>Rule = [], Description = [], Resource = shuffle_resource,
         Message = ''Tag name '' @ [CHR 0x27] @ ''env'' @ [CHR 0x27]
           @ '' does not match pattern: Tag names must start with uppercase''\<rparr>,
        \<lparr>Rule = [], Description = [], Resource = shuffle_resource,
         Message = ''Tag name '' @ [CHR 0x27] @ ''team'' @ [CHR 0x27]
           @ '' does not match pattern: Tag names must start with uppercase''\<rparr>]
   \<and> Validate shuffle_config order_team_env [shuffle_resource] =
       [\<lparr>Rule = [], Description = [], Resource = shuffle_resource,
         Message = ''Tag name '' @ [CHR 0x27] @ ''team'' @ [CHR 0x27]
           @ '' does not match pattern: Tag names must start with uppercase''\<rparr>,
        \<lparr>Rule = [], Description = [], Resource = shuffle_resource,
         Message = ''Tag name '' @ [CHR 0x27] @ ''env'' @ [CHR 0x27]
           @ '' does not match pattern: Tag names must start with uppercase''\<rparr>]
   \<and> Validate shuffle_config order_env_team [shuffle_resource]
       \<noteq> Validate shuffle_config order_team_env [shuffle_resource]"
proof -
  have 1: "range_orders order_env_team shuffle_config [shuffle_resource]"
    by (auto simp: range_orders_def range_order_def shuffle_config_def shuffle_resource_def
        zero_Resource_def order_env_team_def)
  have 2: "range_orders order_team_env shuffle_config [shuffle_resource]"
    by (auto simp: range_orders_def range_order_def shuffle_config_def shuffle_resource_def
        zero_Resource_def order_team_env_def)
  have e: "\<not> Validate_pattern leading_uppercase ''env''"
    and t: "\<not> Validate_pattern leading_uppercase ''team''"
    by (simp_all add: Validate_pattern_def leading_uppercase_def)
  have 3: "Validate shuffle_config order_env_team [shuffle_resource] =
       [\<lparr>Rule = [], Description = [], Resource = shuffle_resource,
         Message = ''Tag name '' @ [CHR 0x27] @ ''env'' @ [CHR 0x27]
           @ '' does not match pattern: Tag names must start with uppercase''\<rparr>,
        \<lparr>Rule = [], Description = [], Resource = shuffle_resource,
         Message = ''Tag name '' @ [CHR 0x27] @ ''team'' @ [CHR 0x27]
           @ '' does not match pattern: Tag names must start with uppercase''\<rparr>]"
    unfolding Validate_indexed
    by (simp add: shuffle_config_def shouldIgnoreResource_def checkGlobalRequiredTags_def
        order_env_team_def shuffle_checkRule e t)
  have 4: "Validate shuffle_config order_team_env [shuffle_resource] =
       [\<lparr>Rule = [], Description = [], Resource = shuffle_resource,
         Message = ''Tag name '' @ [CHR 0x27] @ ''team'' @ [CHR 0x27]
           @ '' does not match pattern: Tag names must start with uppercase''\<rparr>,
        \<lparr>Rule = [], Description = [], Resource = shuffle_resource,
         Message = ''Tag name '' @ [CHR 0x27] @ ''env'' @ [CHR 0x27]
           @ '' does not match pattern: Tag names must start with uppercase''\<rparr>]"
    unfolding Validate_indexed
    by (simp add: shuffle_config_def shouldIgnoreResource_def checkGlobalRequiredTags_def
        order_team_env_def shuffle_checkRule e t)
  have 5: "Validate shuffle_config order_env_team [shuffle_resource]
       \<noteq> Validate shuffle_config order_team_env [shuffle_resource]"
    unfolding 3 4 by simp
  from 1 2 3 4 5 show ?thesis by (intro conjI)
qed

lemma range_ordersD:
  "range_orders order cfg resources \<Longrightarrow> i < length resources \<Longrightarrow> j < length (Rules cfg) \<Longrightarrow>
   range_order (order i j) (Tags (resources ! i))"
  by (simp add: range_orders_def list_all_iff)

lemma concat_map_Nil: "concat (map (\<lambda>k. []) ks) = []"
  by (induction ks) auto

lemma checkRule_no_patterns:
  "TagPatterns rule = [] \<Longrightarrow> checkRule ks resource rule = checkRule ks' resource rule"
  by (cases "rule_applies resource rule")
     (simp_all add: checkRule_applicable checkRule_not_applicable tagPatterns_loop_concat
        concat_map_Nil)

lemma concat_map_cong_list:
  "(\<And>x. x \<in> set xs \<Longrightarrow> f x = g x) \<Longrightarrow> concat (map f xs) = concat (map g xs)"
  by (induction xs) auto

text \<open>
  What the iteration order cannot change: two runs on the same resources and config
  return the same violations with the same multiplicities, and the same sequence
  whenever every resource has at most one tag or no rule has tag patterns.
\<close>

lemma Validate_order_independent:
  assumes "range_orders order cfg resources" and "range_orders order' cfg resources"
  shows "mset (Validate cfg order resources) = mset (Validate cfg order' resources)
     \<and> ((\<forall>resource \<in> set resources. card (dom (Tags resource)) \<le> 1)
          \<or> (\<forall>rule \<in> set (Rules cfg). TagPatterns rule = [])
        \<longrightarrow> Validate cfg order resources = Validate cfg order' resources)"
proof (intro conjI impI)
  show "mset (Validate cfg order resources) = mset (Validate cfg order' resources)"
    unfolding Validate_indexed
  proof (rule mset_concat_map_cong)
    fix i assume "i \<in> set [0..<length resources]"
    then have i: "i < length resources" by simp
    have "mset (concat (map (\<lambda>j. checkRule (order i j) (resources ! i) (Rules cfg ! j))
                        [0..<length (Rules cfg)]))
        = mset (concat (map (\<lambda>j. checkRule (order' i j) (resources ! i) (Rules cfg ! j))
                        [0..<length (Rules cfg)]))"
    proof (rule mset_concat_map_cong)
      fix j assume "j \<in> set [0..<length (Rules cfg)]"
      then have j: "j < length (Rules cfg)" by simp
      show "mset (checkRule (order i j) (resources ! i) (Rules cfg ! j))
          = mset (checkRule (order' i j) (resources ! i) (Rules cfg ! j))"
        by (rule checkRule_mset) (rule range_ordersD [OF _ i j], rule assms)+
    qed
    then show "mset (if shouldIgnoreResource cfg (Type (resources ! i)) then []
        else checkGlobalRequiredTags cfg (resources ! i)
             @ concat (map (\<lambda>j. checkRule (order i j) (resources ! i) (Rules cfg ! j))
                        [0..<length (Rules cfg)]))
      = mset (if shouldIgnoreResource cfg (Type (resources ! i)) then []
        else checkGlobalRequiredTags cfg (resources ! i)
             @ concat (map (\<lambda>j. checkRule (order' i j) (resources ! i) (Rules cfg ! j))
                        [0..<length (Rules cfg)]))"
      by simp
  qed
next
  assume c: "(\<forall>resource \<in> set resources. card (dom (Tags resource)) \<le> 1)
          \<or> (\<forall>rule \<in> set (Rules cfg). TagPatterns rule = [])"
  have same: "checkRule (order i j) (resources ! i) (Rules cfg ! j)
      = checkRule (order' i j) (resources ! i) (Rules cfg ! j)"
    if i: "i < length resources" and j: "j < length (Rules cfg)" for i j
    using c
  proof
    assume "\<forall>resource \<in> set resources. card (dom (Tags resource)) \<le> 1"
    with i have "card (dom (Tags (resources ! i))) \<le> 1" by simp
    then have "order i j = order' i j"
      using range_ordersD [OF assms(1) i j] range_ordersD [OF assms(2) i j]
      by (intro range_order_unique)
    then show ?thesis by simp
  next
    assume "\<forall>rule \<in> set (Rules cfg). TagPatterns rule = []"
    with j have "TagPatterns (Rules cfg ! j) = []" by simp
    then show ?thesis by (rule checkRule_no_patterns)
  qed
  show "Validate cfg order resources = Validate cfg order' resources"
    unfolding Validate_indexed
  proof (rule concat_map_cong_list)
    fix i assume "i \<in> set [0..<length resources]"
    then have i: "i < length resources" by simp
    have "concat (map (\<lambda>j. checkRule (order i j) (resources ! i) (Rules cfg ! j))
                        [0..<length (Rules cfg)])
        = concat (map (\<lambda>j. checkRule (order' i j) (resources ! i) (Rules cfg ! j))
                        [0..<length (Rules cfg)])"
      by (rule concat_map_cong_list) (simp add: same [OF i])
    then show "(if shouldIgnoreResource cfg (Type (resources ! i)) then []
        else checkGlobalRequiredTags cfg (resources ! i)
             @ concat (map (\<lambda>j. checkRule (order i j) (resources ! i) (Rules cfg ! j))
                        [0..<length (Rules cfg)]))
      = (if shouldIgnoreResource cfg (Type (resources ! i)) then []
        else checkGlobalRequiredTags cfg (resources ! i)
             @ concat (map (\<lambda>j. checkRule (order' i j) (resources ! i) (Rules cfg ! j))
                        [0..<length (Rules cfg)]))"
      by simp
  qed
qed

lemma copy_strings_eq:
  "copy_strings ks t tags =
     tags ++ (\<lambda>k. if k \<in> set ks then (case t k of Some (JString str) \<Rightarrow> Some str | _ \<Rightarrow> None)
                  else None)"
  unfolding copy_strings_def
proof (induction ks arbitrary: tags)
  case Nil
  show ?case by (simp add: map_add_def)
next
  case (Cons k ks)
  show ?case
    by (rule ext) (auto simp: Cons.IH map_add_def split: option.splits json.splits)
qed

lemma copy_strings_range:
  "range_order ks t \<Longrightarrow> copy_strings ks t tags = tags ++ string_entries (Some (JObject t))"
  unfolding copy_strings_eq string_entries_def range_order_def
  by (rule arg_cong [where f = "\<lambda>m. tags ++ m"], rule ext) (auto split: option.splits)

text \<open>
  C5. Whatever order the two loops visit the objects' keys in, the extracted tags are the
  string-valued entries of the field tags overlaid with the string-valued entries of the
  field tags_all, so that tags_all wins where both have a key. Entries that are not
  strings are left out, and a field that is absent or is not an object contributes
  nothing; the function has no failing branch.
\<close>

theorem extractTagsFromValues_merge:
  "field_order ks (values ''tags'') \<and> field_order ks_all (values ''tags_all'') \<longrightarrow>
   extractTagsFromValues ks ks_all values =
     string_entries (values ''tags'') ++ string_entries (values ''tags_all'')"
proof
  assume a: "field_order ks (values ''tags'') \<and> field_order ks_all (values ''tags_all'')"
  have 1: "(case values ''tags'' of
              Some (JObject t) \<Rightarrow> copy_strings ks t Map.empty
            | _ \<Rightarrow> Map.empty) = string_entries (values ''tags'')"
    using a
    by (auto simp: field_order_def copy_strings_range split: option.splits json.splits)
       (simp_all add: string_entries_def)
  have 2: "(case values ''tags_all'' of
              Some (JObject t) \<Rightarrow> copy_strings ks_all t tags
            | _ \<Rightarrow> tags) = tags ++ string_entries (values ''tags_all'')" for tags
    using a
    by (auto simp: field_order_def copy_strings_range split: option.splits json.splits)
       (simp_all add: string_entries_def)
  show "extractTagsFromValues ks ks_all values =
     string_entries (values ''tags'') ++ string_entries (values ''tags_all'')"
    unfolding extractTagsFromValues_def Let_def 1 2 ..
qed

theorem extractTagsFromValues_merge_witness:
  "field_order [''Name''] ((merge_values :: string \<rightharpoonup> nat json) ''tags'')
   \<and> field_order [''Environment'', ''Name''] ((merge_values :: string \<rightharpoonup> nat json) ''tags_all'')
   \<and> extractTagsFromValues [''Name''] [''Environment'', ''Name'']
         (merge_values :: string \<rightharpoonup> nat json)
       = [''Name'' \<mapsto> ''a'', ''Environment'' \<mapsto> ''dev'']
   \<and> extractTagsFromValues [] []
         [''tags'' \<mapsto> JString ''invalid'', ''tags_all'' \<mapsto> JNumber (1::nat)] = Map.empty"
proof -
  let ?v = "merge_values :: string \<rightharpoonup> nat json"
  let ?w = "[''tags'' \<mapsto> JString ''invalid'', ''tags_all'' \<mapsto> JNumber (1::nat)]"
  have 1: "field_order [''Name''] (?v ''tags'')"
    by (auto simp: field_order_def merge_values_def range_order_def)
  have 2: "field_order [''Environment'', ''Name''] (?v ''tags_all'')"
    by (auto simp: field_order_def merge_values_def range_order_def)
  have 3: "string_entries (?v ''tags'') ++ string_entries (?v ''tags_all'')
      = [''Name'' \<mapsto> ''a'', ''Environment'' \<mapsto> ''dev'']"
    by (rule ext) (simp add: string_entries_def merge_values_def map_add_def)
  have 4: "field_order [] (?w ''tags'') \<and> field_order [] (?w ''tags_all'')"
    by (simp add: field_order_def)
  have 5: "string_entries (?w ''tags'') ++ string_entries (?w ''tags_all'') = Map.empty"
    by (simp add: string_entries_def)
  from 1 2
    extractTagsFromValues_merge [of "[''Name'']" ?v "[''Environment'', ''Name'']"]
    extractTagsFromValues_merge [of "[]" ?w "[]"] 3 4 5
  show ?thesis by simp
qed

lemma isResourceType_nonempty: "isResourceType s \<Longrightarrow> s \<noteq> []"
  by (auto simp: isResourceType_def HasPrefix_def split: if_splits)

lemma find_resource_type_first:
  "find_resource_type parts =
     (case first_provider_segment parts of Some tn \<Rightarrow> tn | None \<Rightarrow> ([], []))"
  by (induction parts rule: find_resource_type.induct) auto

lemma first_provider_segment_Some:
  "first_provider_segment parts = Some (t, n) \<Longrightarrow> t \<noteq> [] \<and> t \<in> set parts \<and> n \<in> set parts"
  by (induction parts rule: first_provider_segment.induct)
     (auto simp: isResourceType_nonempty split: if_splits)

lemma identity_of_convert:
  "identity_of (convertPlannedResource ks ks_all planned filename) =
     (let parts = Split (Address planned) CHR ''.'' in
      if length parts < 2 then None
      else case first_provider_segment parts of
             Some (t, n) \<Rightarrow> if n = [] then Some (final_two parts) else Some (t, n)
           | None \<Rightarrow> Some (final_two parts))"
  by (auto simp: identity_of_def convertPlannedResource_def Let_def find_resource_type_first
        final_two_def
      dest: first_provider_segment_Some split: option.splits prod.splits)

lemma convert_examples:
  "identity_of (convertPlannedResource ks ks_all (planned_at ''module.vpc.aws_vpc.main'') filename)
     = Some (''aws_vpc'', ''main'')"
  "identity_of (convertPlannedResource ks ks_all (planned_at ''data.aws_ami.ubuntu'') filename)
     = Some (''aws_ami'', ''ubuntu'')"
  "convertPlannedResource ks ks_all (planned_at ''invalid'') filename = None"
  by (simp_all add: identity_of_def convertPlannedResource_def planned_at_def Split_def
      isResourceType_def HasPrefix_def)

text \<open>
  C4, as stated, fails. In the address \<^verbatim>\<open>aws_vpc..x\<close> the first segment matches the
  provider prefixes and the segment after it is empty. The claim's derivation gives the
  type \<^verbatim>\<open>aws_vpc\<close> and an empty name; the code, finding the name empty, falls back to
  the final two segments and gives an empty type and the name \<^verbatim>\<open>x\<close>.
\<close>

theorem address_identity_counterexample:
  "identity_of (convertPlannedResource [] [] (planned_at ''aws_vpc..x'') ''plan.json'')
     = Some ([], ''x'')
   \<and> address_identity ''aws_vpc..x'' = Some (''aws_vpc'', [])"
  by (simp add: identity_of_def convertPlannedResource_def planned_at_def Split_def
      isResourceType_def HasPrefix_def address_identity_def)

text \<open>
  C4, amended. The type and name are those of the first segment, among the segments that
  have a successor, that matches the provider prefixes, and of its successor, provided
  that successor is not empty; if no such segment matches, or the successor is empty,
  they are the final two segments; an address of fewer than two segments yields no
  resource. For an address without empty segments this is the derivation of the claim.
  The three example addresses give aws_vpc main, aws_ami ubuntu, and no resource.
\<close>

theorem address_identity_amended:
  "identity_of (convertPlannedResource ks ks_all planned filename) =
     (let parts = Split (Address planned) CHR ''.'' in
      if length parts < 2 then None
      else case first_provider_segment parts of
             Some (t, n) \<Rightarrow> if n = [] then Some (final_two parts) else Some (t, n)
           | None \<Rightarrow> Some (final_two parts))
   \<and> ([] \<notin> set (Split (Address planned) CHR ''.'') \<longrightarrow>
        identity_of (convertPlannedResource ks ks_all planned filename)
          = address_identity (Address planned))
   \<and> identity_of (convertPlannedResource ks ks_all (planned_at ''module.vpc.aws_vpc.main'') filename)
        = Some (''aws_vpc'', ''main'')
   \<and> identity_of (convertPlannedResource ks ks_all (planned_at ''data.aws_ami.ubuntu'') filename)
        = Some (''aws_ami'', ''ubuntu'')
   \<and> convertPlannedResource ks ks_all (planned_at ''invalid'') filename = None"
proof (intro conjI impI)
  show "identity_of (convertPlannedResource ks ks_all planned filename) =
     (let parts = Split (Address planned) CHR ''.'' in
      if length parts < 2 then None
      else case first_provider_segment parts of
             Some (t, n) \<Rightarrow> if n = [] then Some (final_two parts) else Some (t, n)
           | None \<Rightarrow> Some (final_two parts))"
    by (rule identity_of_convert)
next
  assume "[] \<notin> set (Split (Address planned) CHR ''.'')"
  then show "identity_of (convertPlannedResource ks ks_all planned filename)
          = address_identity (Address planned)"
    unfolding identity_of_convert address_identity_def
    by (auto simp: Let_def dest: first_provider_segment_Some split: option.splits)
qed (rule convert_examples)+

theorem address_identity_amended_witness:
  "[] \<notin> set (Split ''module.a.module.b.google_compute_instance.vm'' CHR ''.'')
   \<and> identity_of (convertPlannedResource [] []
         (planned_at ''module.a.module.b.google_compute_instance.vm'') ''plan.json'')
       = Some (''google_compute_instance'', ''vm'')
   \<and> identity_of (convertPlannedResource [] [] (planned_at ''null_resource.x'') ''plan.json'')
       = Some (''null_resource'', ''x'')"
proof -
  have 1: "[] \<notin> set (Split ''module.a.module.b.google_compute_instance.vm'' CHR ''.'')"
    by (simp add: Split_def)
  have 2: "address_identity ''module.a.module.b.google_compute_instance.vm''
      = Some (''google_compute_instance'', ''vm'')"
    by (simp add: address_identity_def Split_def isResourceType_def HasPrefix_def)
  have 3: "[] \<notin> set (Split ''null_resource.x'' CHR ''.'')"
    by (simp add: Split_def)
  have 4: "address_identity ''null_resource.x'' = Some (''null_resource'', ''x'')"
    by (simp add: address_identity_def Split_def isResourceType_def HasPrefix_def final_two_def)
  from 1 2 3 4
    address_identity_amended [THEN conjunct2, THEN conjunct1,
      of "planned_at ''module.a.module.b.google_compute_instance.vm''" "[]" "[]" "''plan.json''"]
    address_identity_amended [THEN conjunct2, THEN conjunct1,
      of "planned_at ''null_resource.x''" "[]" "[]" "''plan.json''"]
  show ?thesis
    by (simp add: planned_at_def)
qed

text \<open>
  C10. A resource that \<^verbatim>\<open>convertPlannedResource\<close> returns has the plan file's path as
  \<^verbatim>\<open>Location.Filename\<close> and as \<^verbatim>\<open>File\<close>, and its location starts and ends at line 1,
  column 1, byte 0, whatever the planned resource is.
\<close>

theorem plan_location:
  "convertPlannedResource ks ks_all planned filename = Some r \<longrightarrow>
   Location r = \<lparr>Filename = filename,
                 Start = \<lparr>Line = 1, Column = 1, Byte = 0\<rparr>,
                 End = \<lparr>Line = 1, Column = 1, Byte = 0\<rparr>\<rparr>
   \<and> File r = filename"
  by (auto simp: convertPlannedResource_def Let_def split: if_splits prod.splits option.splits)

theorem plan_location_witness:
  "(let r = the (convertPlannedResource [] [] (planned_at ''module.vpc.aws_vpc.main'') ''plan.json'')
    in convertPlannedResource [] [] (planned_at ''module.vpc.aws_vpc.main'') ''plan.json'' = Some r
       \<and> Location r = \<lparr>Filename = ''plan.json'',
                 Start = \<lparr>Line = 1, Column = 1, Byte = 0\<rparr>,
                 End = \<lparr>Line = 1, Column = 1, Byte = 0\<rparr>\<rparr>
       \<and> File r = ''plan.json'')"
proof -
  obtain r where r: "convertPlannedResource [] [] (planned_at ''module.vpc.aws_vpc.main'') ''plan.json'' = Some r"
    using convert_examples(1) [of "[]" "[]" "''plan.json''"]
    by (auto simp: identity_of_def)
  with plan_location [of "[]" "[]" "planned_at ''module.vpc.aws_vpc.main''" "''plan.json''" r]
  show ?thesis by simp
qed

lemma walk_loop_ok:
  "\<forall>entry \<in> set entries. err entry = None \<Longrightarrow>
   walk_loop ParseHCLFile entries result =
     Inr \<lparr>Resources = Resources result
             @ concat (map (file_resources ParseHCLFile) (tf_files entries)),
          Errors = Errors result
             @ concat (map (file_errors ParseHCLFile) (tf_files entries))\<rparr>"
proof (induction entries arbitrary: result)
  case Nil
  show ?case by (simp add: tf_files_def)
next
  case (Cons entry entries)
  then have e: "err entry = None" and rest: "\<forall>entry \<in> set entries. err entry = None"
    by simp_all
  show ?case
  proof (cases "HasSuffix (filePath entry) ''.tf'' \<and> \<not> IsDir entry")
    case False
    then have "tf_files (entry # entries) = tf_files entries"
      by (simp add: tf_files_def)
    with False e show ?thesis
      by (auto simp: Cons.IH [OF rest])
  next
    case True
    then have tf: "tf_files (entry # entries) = entry # tf_files entries"
      by (simp add: tf_files_def)
    show ?thesis
    proof (cases "parseFile ParseHCLFile (filePath entry)")
      case (Inl msg)
      with True e show ?thesis
        by (simp add: Cons.IH [OF rest] tf file_resources_def file_errors_def)
    next
      case (Inr resources)
      with True e show ?thesis
        by (simp add: Cons.IH [OF rest] tf file_resources_def file_errors_def)
    qed
  qed
qed

lemma tf_files_append: "tf_files (xs @ ys) = tf_files xs @ tf_files ys"
  by (simp add: tf_files_def)

lemma paths_loop_ok:
  "\<forall>entry \<in> set (concat (map Walk paths)). err entry = None \<Longrightarrow>
   paths_loop ParseHCLFile Walk paths result =
     Inr \<lparr>Resources = Resources result
             @ concat (map (file_resources ParseHCLFile) (tf_files (concat (map Walk paths)))),
          Errors = Errors result
             @ concat (map (file_errors ParseHCLFile) (tf_files (concat (map Walk paths))))\<rparr>"
proof (induction paths arbitrary: result)
  case Nil
  show ?case by (simp add: tf_files_def)
next
  case (Cons path paths)
  then have 1: "\<forall>entry \<in> set (Walk path). err entry = None"
    and 2: "\<forall>entry \<in> set (concat (map Walk paths)). err entry = None"
    by simp_all
  show ?case
    by (simp add: walk_loop_ok [OF 1] Cons.IH [OF 2] tf_files_append)
qed

lemma walk_loop_Inl:
  "walk_loop ParseHCLFile entries result = Inl e \<Longrightarrow> \<exists>entry \<in> set entries. err entry = Some e"
  by (induction entries arbitrary: result) (auto split: option.splits if_splits sum.splits)

lemma paths_loop_Inl:
  "paths_loop ParseHCLFile Walk paths result = Inl e \<Longrightarrow>
   \<exists>entry \<in> set (concat (map Walk paths)). err entry = Some e"
proof (induction paths arbitrary: result)
  case Nil
  then show ?case by simp
next
  case (Cons path paths)
  show ?case
  proof (cases "walk_loop ParseHCLFile (Walk path) result")
    case (Inl e')
    with Cons.prems have "e' = e" by simp
    with Inl walk_loop_Inl [of ParseHCLFile "Walk path" result e] show ?thesis
      by auto
  next
    case (Inr result')
    with Cons.prems have "paths_loop ParseHCLFile Walk paths result' = Inl e" by simp
    from Cons.IH [OF this] show ?thesis by auto
  qed
qed

lemma length_file_errors:
  "length (concat (map (file_errors ParseHCLFile) entries))
     = length (filter (\<lambda>p. isl (parseFile ParseHCLFile p)) (map filePath entries))"
  by (induction entries) (auto simp: file_errors_def split: sum.splits)

lemma errors_per_file:
  assumes "distinct (map filePath entries)"
  shows "length (concat (map (file_errors ParseHCLFile) entries))
     = card {p \<in> filePath ` set entries. isl (parseFile ParseHCLFile p)}"
proof -
  have "distinct (filter (\<lambda>p. isl (parseFile ParseHCLFile p)) (map filePath entries))"
    using assms by (rule distinct_filter)
  then have "length (filter (\<lambda>p. isl (parseFile ParseHCLFile p)) (map filePath entries))
      = card (set (filter (\<lambda>p. isl (parseFile ParseHCLFile p)) (map filePath entries)))"
    by (rule distinct_card [symmetric])
  also have "set (filter (\<lambda>p. isl (parseFile ParseHCLFile p)) (map filePath entries))
      = {p \<in> filePath ` set entries. isl (parseFile ParseHCLFile p)}"
    by auto
  finally show ?thesis unfolding length_file_errors .
qed

text \<open>
  C9, as stated, fails. A file contributes once for every visit the walks make to it,
  and the walks of overlapping roots visit a file more than once: with the roots
  \<^verbatim>\<open>.\<close> and \<^verbatim>\<open>sub\<close> the one file that does not parse is recorded with two errors,
  and the resource of the file that parses is returned twice.
\<close>

theorem one_error_per_file_counterexample:
  "ParseTerraformFiles overlap_files overlap_walk [''.'', ''sub''] =
     Inr \<lparr>Resources =
            [\<lparr>Type = ''aws_instance'', Name = ''ok'', Tags = Map.empty,
              Location = block_range, File = ''sub/ok.tf''\<rparr>,
             \<lparr>Type = ''aws_instance'', Name = ''ok'', Tags = Map.empty,
              Location = block_range, File = ''sub/ok.tf''\<rparr>],
          Errors = [''sub/bad.tf: failed to parse HCL: Unclosed configuration block'',
                    ''sub/bad.tf: failed to parse HCL: Unclosed configuration block'']\<rparr>"
proof -
  have b: "parseFile overlap_files ''sub/bad.tf'' =
      Inl ''failed to parse HCL: Unclosed configuration block''"
    by (simp add: parseFile_def overlap_files_def)
  have c: "parseFile overlap_files ''sub/ok.tf'' =
      Inr [\<lparr>Type = ''aws_instance'', Name = ''ok'', Tags = Map.empty,
              Location = block_range, File = ''sub/ok.tf''\<rparr>]"
    by (simp add: parseFile_def overlap_files_def extractTags_def)
  show ?thesis
    by (simp add: ParseTerraformFiles_def overlap_walk_def HasSuffix_def b c)
qed

text \<open>
  C9, amended. When the walk of the root paths reports no error of its own, the run is
  never aborted: \<^verbatim>\<open>ParseTerraformFiles\<close> returns a result. Every visit of a file that
  fails to parse adds exactly one error, made of the file's path, a colon and the cause,
  and no resource; every visit of a file that parses adds that file's resources; what
  one visit adds does not depend on the others. When the function does return an error
  instead of a result, that error is one the walk reported, never a parse failure. When
  no file is visited twice, there are as many errors as files that fail to parse.
\<close>

theorem parse_failures_isolated:
  "((\<forall>entry \<in> set (concat (map Walk paths)). err entry = None) \<longrightarrow>
     ParseTerraformFiles ParseHCLFile Walk paths =
       Inr \<lparr>Resources = concat (map (\<lambda>entry.
                case parseFile ParseHCLFile (filePath entry) of
                  Inl e \<Rightarrow> []
                | Inr resources \<Rightarrow> resources)
              (filter (\<lambda>entry. HasSuffix (filePath entry) ''.tf'' \<and> \<not> IsDir entry)
                 (concat (map Walk paths)))),
            Errors = concat (map (\<lambda>entry.
                case parseFile ParseHCLFile (filePath entry) of
                  Inl e \<Rightarrow> [filePath entry @ '': '' @ e]
                | Inr resources \<Rightarrow> [])
              (filter (\<lambda>entry. HasSuffix (filePath entry) ''.tf'' \<and> \<not> IsDir entry)
                 (concat (map Walk paths))))\<rparr>)
   \<and> (ParseTerraformFiles ParseHCLFile Walk paths = Inl e \<longrightarrow>
        (\<exists>entry \<in> set (concat (map Walk paths)). err entry = Some e))
   \<and> ((\<forall>entry \<in> set (concat (map Walk paths)). err entry = None)
        \<and> distinct (map filePath
              (filter (\<lambda>entry. HasSuffix (filePath entry) ''.tf'' \<and> \<not> IsDir entry)
                 (concat (map Walk paths)))) \<longrightarrow>
        (\<exists>result. ParseTerraformFiles ParseHCLFile Walk paths = Inr result
           \<and> length (Errors result) =
               card {p \<in> filePath `
                      set (filter (\<lambda>entry. HasSuffix (filePath entry) ''.tf'' \<and> \<not> IsDir entry)
                             (concat (map Walk paths))).
                     isl (parseFile ParseHCLFile p)}))"
proof (intro conjI impI)
  assume a: "\<forall>entry \<in> set (concat (map Walk paths)). err entry = None"
  have r: "file_resources ParseHCLFile = (\<lambda>entry.
                case parseFile ParseHCLFile (filePath entry) of
                  Inl e \<Rightarrow> []
                | Inr resources \<Rightarrow> resources)"
    by (rule ext) (simp add: file_resources_def)
  have e: "file_errors ParseHCLFile = (\<lambda>entry.
                case parseFile ParseHCLFile (filePath entry) of
                  Inl e \<Rightarrow> [filePath entry @ '': '' @ e]
                | Inr resources \<Rightarrow> [])"
    by (rule ext) (simp add: file_errors_def)
  show "ParseTerraformFiles ParseHCLFile Walk paths =
       Inr \<lparr>Resources = concat (map (\<lambda>entry.
                case parseFile ParseHCLFile (filePath entry) of
                  Inl e \<Rightarrow> []
                | Inr resources \<Rightarrow> resources)
              (filter (\<lambda>entry. HasSuffix (filePath entry) ''.tf'' \<and> \<not> IsDir entry)
                 (concat (map Walk paths)))),
            Errors = concat (map (\<lambda>entry.
                case parseFile ParseHCLFile (filePath entry) of
                  Inl e \<Rightarrow> [filePath entry @ '': '' @ e]
                | Inr resources \<Rightarrow> [])
              (filter (\<lambda>entry. HasSuffix (filePath entry) ''.tf'' \<and> \<not> IsDir entry)
                 (concat (map Walk paths))))\<rparr>"
    unfolding ParseTerraformFiles_def paths_loop_ok [OF a] r [symmetric] e [symmetric]
      tf_files_def [symmetric]
    by simp
next
  assume "ParseTerraformFiles ParseHCLFile Walk paths = Inl e"
  then show "\<exists>entry \<in> set (concat (map Walk paths)). err entry = Some e"
    unfolding ParseTerraformFiles_def by (rule paths_loop_Inl)
next
  assume h: "(\<forall>entry \<in> set (concat (map Walk paths)). err entry = None)
        \<and> distinct (map filePath
              (filter (\<lambda>entry. HasSuffix (filePath entry) ''.tf'' \<and> \<not> IsDir entry)
                 (concat (map Walk paths))))"
  then have a: "\<forall>entry \<in> set (concat (map Walk paths)). err entry = None"
    and d: "distinct (map filePath (tf_files (concat (map Walk paths))))"
    by (simp_all add: tf_files_def)
  have "ParseTerraformFiles ParseHCLFile Walk paths =
      Inr \<lparr>Resources = concat (map (file_resources ParseHCLFile)
                (tf_files (concat (map Walk paths)))),
           Errors = concat (map (file_errors ParseHCLFile)
                (tf_files (concat (map Walk paths))))\<rparr>"
    unfolding ParseTerraformFiles_def paths_loop_ok [OF a] by simp
  moreover have "length (concat (map (file_errors ParseHCLFile)
                (tf_files (concat (map Walk paths)))))
      = card {p \<in> filePath ` set (tf_files (concat (map Walk paths))).
               isl (parseFile ParseHCLFile p)}"
    by (rule errors_per_file [OF d])
  ultimately show "\<exists>result. ParseTerraformFiles ParseHCLFile Walk paths = Inr result
           \<and> length (Errors result) =
               card {p \<in> filePath `
                      set (filter (\<lambda>entry. HasSuffix (filePath entry) ''.tf'' \<and> \<not> IsDir entry)
                             (concat (map Walk paths))).
                     isl (parseFile ParseHCLFile p)}"
    unfolding tf_files_def by simp
qed

theorem parse_failures_isolated_witness:
  "ParseTerraformFiles three_files three_walk [''.''] =
     Inr \<lparr>Resources =
            [\<lparr>Type = ''aws_instance'', Name = ''a'', Tags = Map.empty,
              Location = block_range, File = ''a.tf''\<rparr>,
             \<lparr>Type = ''aws_s3_bucket'', Name = ''c'', Tags = Map.empty,
              Location = block_range, File = ''c.tf''\<rparr>],
          Errors = [''bad.tf: failed to parse HCL: Unclosed configuration block'']\<rparr>
   \<and> card {p \<in> filePath `
              set (filter (\<lambda>entry. HasSuffix (filePath entry) ''.tf'' \<and> \<not> IsDir entry)
                     (concat (map three_walk [''.'']))).
             isl (parseFile three_files p)} = 1"
proof -
  have w: "\<forall>entry \<in> set (concat (map three_walk [''.''])). err entry = None"
    by (simp add: three_walk_def)
  have d: "distinct (map filePath
              (filter (\<lambda>entry. HasSuffix (filePath entry) ''.tf'' \<and> \<not> IsDir entry)
                 (concat (map three_walk [''.'']))))"
    by (simp add: three_walk_def HasSuffix_def)
  have a: "parseFile three_files ''a.tf'' =
      Inr [\<lparr>Type = ''aws_instance'', Name = ''a'', Tags = Map.empty,
              Location = block_range, File = ''a.tf''\<rparr>]"
    by (simp add: parseFile_def three_files_def extractTags_def)
  have b: "parseFile three_files ''bad.tf'' = Inl ''failed to parse HCL: Unclosed configuration block''"
    by (simp add: parseFile_def three_files_def)
  have c: "parseFile three_files ''c.tf'' =
      Inr [\<lparr>Type = ''aws_s3_bucket'', Name = ''c'', Tags = Map.empty,
              Location = block_range, File = ''c.tf''\<rparr>]"
    by (simp add: parseFile_def three_files_def extractTags_def)
  have 1: "ParseTerraformFiles three_files three_walk [''.''] =
     Inr \<lparr>Resources =
            [\<lparr>Type = ''aws_instance'', Name = ''a'', Tags = Map.empty,
              Location = block_range, File = ''a.tf''\<rparr>,
             \<lparr>Type = ''aws_s3_bucket'', Name = ''c'', Tags = Map.empty,
              Location = block_range, File = ''c.tf''\<rparr>],
          Errors = [''bad.tf: failed to parse HCL: Unclosed configuration block'']\<rparr>"
    using parse_failures_isolated [THEN conjunct1, THEN mp, OF w, of three_files]
    by (simp add: three_walk_def HasSuffix_def a b c)
  from parse_failures_isolated [THEN conjunct2, THEN conjunct2, THEN mp, OF conjI, OF w d,
      of three_files]
  have 2: "card {p \<in> filePath `
              set (filter (\<lambda>entry. HasSuffix (filePath entry) ''.tf'' \<and> \<not> IsDir entry)
                     (concat (map three_walk [''.'']))).
             isl (parseFile three_files p)} = 1"
    unfolding 1 by simp
  from 1 2 show ?thesis by (intro conjI)
qed

lemma parseFile_fold:
  "fold (\<lambda>block resources.
           case block of Block typ labels body defRange \<Rightarrow>
             if typ = ''resource'' \<and> length labels \<ge> 2
             then resources @
               [\<lparr>Type = labels ! 0, Name = labels ! 1, Tags = extractTags body,
                 Location = defRange, File = filename\<rparr>]
             else resources) blocks acc
   = acc @ concat (map (\<lambda>block.
           case block of Block typ labels body defRange \<Rightarrow>
             if typ = ''resource'' \<and> length labels \<ge> 2
             then [\<lparr>Type = labels ! 0, Name = labels ! 1, Tags = extractTags body,
                    Location = defRange, File = filename\<rparr>]
             else []) blocks)"
  by (induction blocks arbitrary: acc) (auto split: Block.splits)

lemma parseFile_syntax_body:
  "ParseHCLFile filename = Parsed (SyntaxBody (Body attributes blocks)) \<Longrightarrow>
   parseFile ParseHCLFile filename =
     Inr (concat (map (\<lambda>block.
           case block of Block typ labels body defRange \<Rightarrow>
             if typ = ''resource'' \<and> length labels \<ge> 2
             then [\<lparr>Type = labels ! 0, Name = labels ! 1, Tags = extractTags body,
                    Location = defRange, File = filename\<rparr>]
             else []) blocks))"
  by (simp add: parseFile_def parseFile_fold)

lemma final_two_mem:
  "2 \<le> length parts \<Longrightarrow> fst (final_two parts) \<in> set parts \<and> snd (final_two parts) \<in> set parts"
  by (simp add: final_two_def)

lemma convert_Some_segments:
  assumes "convertPlannedResource ks ks_all planned filename = Some r"
  shows "2 \<le> length (Split (Address planned) CHR ''.'')
     \<and> Resource.Type r \<in> set (Split (Address planned) CHR ''.'')
     \<and> Resource.Name r \<in> set (Split (Address planned) CHR ''.'')"
proof -
  let ?parts = "Split (Address planned) CHR ''.''"
  from assms have i: "identity_of (convertPlannedResource ks ks_all planned filename)
      = Some (Resource.Type r, Resource.Name r)"
    by (simp add: identity_of_def)
  have len: "2 \<le> length ?parts"
    using i unfolding identity_of_convert by (auto simp: Let_def split: if_splits)
  from i len have "(case first_provider_segment ?parts of
             Some (t, n) \<Rightarrow> if n = [] then Some (final_two ?parts) else Some (t, n)
           | None \<Rightarrow> Some (final_two ?parts)) = Some (Resource.Type r, Resource.Name r)"
    unfolding identity_of_convert by (simp add: Let_def)
  then have "Resource.Type r \<in> set ?parts \<and> Resource.Name r \<in> set ?parts"
    using final_two_mem [OF len]
    by (auto split: option.splits if_splits dest: first_provider_segment_Some
        simp: prod_eq_iff)
  with len show ?thesis by simp
qed

lemma convert_produces:
  "2 \<le> length (Split (Address planned) CHR ''.'') \<Longrightarrow>
   \<exists>r. convertPlannedResource ks ks_all planned filename = Some r"
  by (simp add: convertPlannedResource_def Let_def split: prod.splits)

text \<open>
  C3, as stated, fails. The address \<^verbatim>\<open>.\<close> has two segments, both empty; neither
  matches a provider prefix, the fallback takes them as type and name, and the resource
  is returned with both empty.
\<close>

theorem nonempty_identity_counterexample:
  "identity_of (convertPlannedResource [] [] (planned_at ''.'') ''plan.json'') = Some ([], [])"
  by (simp add: identity_of_def convertPlannedResource_def planned_at_def Split_def
      isResourceType_def HasPrefix_def)

text \<open>
  C3, amended. \<^verbatim>\<open>parseFile\<close> returns one resource for each \<^verbatim>\<open>resource\<close> block with at
  least two labels, in block order, with the first two labels as type and name, and
  none for any other block. \<^verbatim>\<open>convertPlannedResource\<close> returns no resource for an
  address of fewer than two segments, and for every address of two or more segments it
  returns a resource, whose type and name are segments of the address. So type and name
  are non-empty whenever no label of the file's blocks, respectively no segment of the
  address, is empty; an empty label or segment is not a reason to drop the candidate.
\<close>

theorem identity_from_labels_and_segments:
  "(ParseHCLFile filename = Parsed (SyntaxBody (Body attributes blocks)) \<longrightarrow>
      (\<exists>resources. parseFile ParseHCLFile filename = Inr resources
         \<and> map (\<lambda>r. (Resource.Type r, Resource.Name r)) resources =
             concat (map (\<lambda>block.
               if block_type block = ''resource'' \<and> 2 \<le> length (block_labels block)
               then [(block_labels block ! 0, block_labels block ! 1)] else []) blocks)
         \<and> ((\<forall>block \<in> set blocks. [] \<notin> set (block_labels block)) \<longrightarrow>
              (\<forall>r \<in> set resources. Resource.Type r \<noteq> [] \<and> Resource.Name r \<noteq> []))))
   \<and> (length (Split (Address planned) CHR ''.'') < 2 \<longrightarrow>
        convertPlannedResource ks ks_all planned planfile = None)
   \<and> (convertPlannedResource ks ks_all planned planfile = Some r \<longrightarrow>
        2 \<le> length (Split (Address planned) CHR ''.'')
        \<and> Resource.Type r \<in> set (Split (Address planned) CHR ''.'')
        \<and> Resource.Name r \<in> set (Split (Address planned) CHR ''.'')
        \<and> ([] \<notin> set (Split (Address planned) CHR ''.'') \<longrightarrow>
             Resource.Type r \<noteq> [] \<and> Resource.Name r \<noteq> []))
   \<and> (2 \<le> length (Split (Address planned) CHR ''.'') \<longrightarrow>
        (\<exists>produced. convertPlannedResource ks ks_all planned planfile = Some produced
           \<and> Resource.Type produced \<in> set (Split (Address planned) CHR ''.'')
           \<and> Resource.Name produced \<in> set (Split (Address planned) CHR ''.'')))"
proof (intro conjI impI)
  assume p: "ParseHCLFile filename = Parsed (SyntaxBody (Body attributes blocks))"
  let ?rs = "concat (map (\<lambda>block.
           case block of Block typ labels body defRange \<Rightarrow>
             if typ = ''resource'' \<and> length labels \<ge> 2
             then [\<lparr>Type = labels ! 0, Name = labels ! 1, Tags = extractTags body,
                    Location = defRange, File = filename\<rparr>]
             else []) blocks)"
  have 1: "parseFile ParseHCLFile filename = Inr ?rs"
    using p by (rule parseFile_syntax_body [of ParseHCLFile filename])
  have 2: "map (\<lambda>r. (Resource.Type r, Resource.Name r)) ?rs =
             concat (map (\<lambda>block.
               if block_type block = ''resource'' \<and> 2 \<le> length (block_labels block)
               then [(block_labels block ! 0, block_labels block ! 1)] else []) blocks)"
    by (induction blocks) (auto split: Block.splits)
  have 3: "(\<forall>block \<in> set blocks. [] \<notin> set (block_labels block)) \<longrightarrow>
              (\<forall>r \<in> set ?rs. Resource.Type r \<noteq> [] \<and> Resource.Name r \<noteq> [])"
  proof (intro impI ballI)
    fix r
    assume l: "\<forall>block \<in> set blocks. [] \<notin> set (block_labels block)" and r: "r \<in> set ?rs"
    from r obtain kind labels body defRange where
      b: "Block kind labels body defRange \<in> set blocks" and len: "2 \<le> length labels"
      and t: "Resource.Type r = labels ! 0" and n: "Resource.Name r = labels ! 1"
      by (auto split: Block.splits if_splits)
    from l b have "[] \<notin> set labels" by force
    moreover from len have l0: "0 < length labels" and l1: "1 < length labels"
      by arith+
    have "labels ! 0 \<in> set labels" "labels ! 1 \<in> set labels"
      using nth_mem [OF l0] nth_mem [OF l1] by blast+
    ultimately show "Resource.Type r \<noteq> [] \<and> Resource.Name r \<noteq> []"
      using t n by metis
  qed
  from 1 2 3 show "\<exists>resources. parseFile ParseHCLFile filename = Inr resources
         \<and> map (\<lambda>r. (Resource.Type r, Resource.Name r)) resources =
             concat (map (\<lambda>block.
               if block_type block = ''resource'' \<and> 2 \<le> length (block_labels block)
               then [(block_labels block ! 0, block_labels block ! 1)] else []) blocks)
         \<and> ((\<forall>block \<in> set blocks. [] \<notin> set (block_labels block)) \<longrightarrow>
              (\<forall>r \<in> set resources. Resource.Type r \<noteq> [] \<and> Resource.Name r \<noteq> []))"
    by blast
next
  assume "length (Split (Address planned) CHR ''.'') < 2"
  then show "convertPlannedResource ks ks_all planned planfile = None"
    by (simp add: convertPlannedResource_def)
next
  assume a: "convertPlannedResource ks ks_all planned planfile = Some r"
  note s = convert_Some_segments [OF a]
  from s show "2 \<le> length (Split (Address planned) CHR ''.'')" by simp
  from s show "Resource.Type r \<in> set (Split (Address planned) CHR ''.'')" by simp
  from s show "Resource.Name r \<in> set (Split (Address planned) CHR ''.'')" by simp
  assume "[] \<notin> set (Split (Address planned) CHR ''.'')"
  with s show "Resource.Type r \<noteq> []" by metis
next
  assume a: "convertPlannedResource ks ks_all planned planfile = Some r"
    and e: "[] \<notin> set (Split (Address planned) CHR ''.'')"
  from convert_Some_segments [OF a] e show "Resource.Name r \<noteq> []" by metis
next
  assume "2 \<le> length (Split (Address planned) CHR ''.'')"
  then obtain produced where
    p: "convertPlannedResource ks ks_all planned planfile = Some produced"
    using convert_produces by blast
  from p convert_Some_segments [OF p]
  show "\<exists>produced. convertPlannedResource ks ks_all planned planfile = Some produced
           \<and> Resource.Type produced \<in> set (Split (Address planned) CHR ''.'')
           \<and> Resource.Name produced \<in> set (Split (Address planned) CHR ''.'')"
    by blast
qed

theorem identity_from_labels_and_segments_witness:
  "(case parseFile three_files ''c.tf'' of
      Inl e \<Rightarrow> False
    | Inr resources \<Rightarrow>
        map (\<lambda>r. (Resource.Type r, Resource.Name r)) resources = [(''aws_s3_bucket'', ''c'')])
   \<and> length (Split ''invalid'' CHR ''.'') < 2
   \<and> convertPlannedResource [] [] (planned_at ''invalid'') ''plan.json'' = None
   \<and> 2 \<le> length (Split ''aws_instance.web'' CHR ''.'')
   \<and> convertPlannedResource [] [] (planned_at ''aws_instance.web'') ''plan.json'' \<noteq> None
   \<and> identity_of (convertPlannedResource [] [] (planned_at ''aws_instance.web'') ''plan.json'')
       = Some (''aws_instance'', ''web'')
   \<and> 2 \<le> length (Split ''aws_vpc.'' CHR ''.'')
   \<and> convertPlannedResource [] [] (planned_at ''aws_vpc.'') ''plan.json'' \<noteq> None
   \<and> identity_of (convertPlannedResource [] [] (planned_at ''aws_vpc.'') ''plan.json'')
       = Some (''aws_vpc'', [])"
proof -
  have p: "three_files ''c.tf'' = Parsed (SyntaxBody (Body Map.empty
             [Block ''variable'' [''region''] (Body Map.empty []) block_range,
              Block ''resource'' [''aws_s3_bucket'', ''c''] (Body Map.empty []) block_range]))"
    by (simp add: three_files_def)
  from identity_from_labels_and_segments [where ParseHCLFile = three_files
      and filename = "''c.tf''", THEN conjunct1, THEN mp, OF p]
  have 1: "case parseFile three_files ''c.tf'' of
      Inl e \<Rightarrow> False
    | Inr resources \<Rightarrow>
        map (\<lambda>r. (Resource.Type r, Resource.Name r)) resources = [(''aws_s3_bucket'', ''c'')]"
    by auto
  have 2: "length (Split (Address (planned_at ''invalid'')) CHR ''.'') < 2"
    by (simp add: planned_at_def Split_def)
  from identity_from_labels_and_segments [THEN conjunct2, THEN conjunct1, THEN mp, OF 2]
  have 3: "convertPlannedResource [] [] (planned_at ''invalid'') ''plan.json'' = None" .
  have 4: "2 \<le> length (Split (Address (planned_at ''aws_instance.web'')) CHR ''.'')"
    by (simp add: planned_at_def Split_def)
  from identity_from_labels_and_segments [where ks = "[]" and ks_all = "[]"
      and planfile = "''plan.json''", THEN conjunct2, THEN conjunct2, THEN conjunct2,
      THEN mp, OF 4]
  have 5: "convertPlannedResource [] [] (planned_at ''aws_instance.web'') ''plan.json'' \<noteq> None"
    by auto
  have 6: "identity_of (convertPlannedResource [] [] (planned_at ''aws_instance.web'') ''plan.json'')
       = Some (''aws_instance'', ''web'')"
    by (simp add: identity_of_def convertPlannedResource_def planned_at_def Split_def
      isResourceType_def HasPrefix_def)
  have 7: "2 \<le> length (Split (Address (planned_at ''aws_vpc.'')) CHR ''.'')"
    by (simp add: planned_at_def Split_def)
  from identity_from_labels_and_segments [where ks = "[]" and ks_all = "[]"
      and planfile = "''plan.json''", THEN conjunct2, THEN conjunct2, THEN conjunct2,
      THEN mp, OF 7]
  have 8: "convertPlannedResource [] [] (planned_at ''aws_vpc.'') ''plan.json'' \<noteq> None"
    by auto
  have 9: "identity_of (convertPlannedResource [] [] (planned_at ''aws_vpc.'') ''plan.json'')
       = Some (''aws_vpc'', [])"
    by (simp add: identity_of_def convertPlannedResource_def planned_at_def Split_def
      isResourceType_def HasPrefix_def)
  from 1 2 3 4 5 6 7 8 9 show ?thesis
    by (simp add: planned_at_def)
qed

end
